theory Spec2Isabelle
  imports Complex_Main
begin

section \<open>The metronome (class \<open>Metronome\<close>)\<close>

text \<open>
  JavaScript numbers that hold times and tempi are modelled as \<open>real\<close>; counters and
  timer handles as \<open>nat\<close>. The two clocks the class samples are parameters of the
  operations that read them: \<open>now\<close> is \<open>audioContext.currentTime\<close> (seconds) and
  \<open>perfNow\<close> is \<open>performance.now()\<close> (milliseconds).
\<close>

datatype contextState = Suspended | Running | Closed

datatype error =
    ContextClosed \<comment> \<open>\<open>new Error('AudioContext is closed. Cannot start metronome.')\<close>\<close>
  | TypeError \<comment> \<open>reading a property of \<open>null\<close> or \<open>undefined\<close>\<close>

text \<open>A pending one-shot timer: the delay it was armed with and the values its callback captured.\<close>

record timeout =
  delay :: real
  tickBeat :: nat
  tickTime :: real

text \<open>
  The first block of fields are the properties of the object. \<open>audioContext\<close> is \<open>None\<close>
  when the option was not given (\<open>undefined\<close>), otherwise the context's \<open>state\<close>.
  The second block is the part of the host the object acts on: the table of pending
  \<open>setTimeout\<close> timers, the active \<open>setInterval\<close> timers, the next handle the host
  hands out, and the calls received so far by \<open>_scheduleTick\<close> (the beats the scheduler
  generated), \<open>onBeatScheduled\<close> and \<open>onTick\<close>.
\<close>

record metronome =
  tempo :: real
  timeSignature :: nat
  audioContext :: "contextState option"
  isPlaying :: bool
  nextTickTime :: real
  currentBeat :: nat
  scheduledTicks :: "nat list"
  lookahead :: real
  scheduleAheadTime :: real
  timerID :: "nat option"
  beatStartTime :: real
  timeouts :: "(nat \<times> timeout) list"
  intervals :: "nat list"
  nextHandle :: nat
  generated :: "(real \<times> nat) list"
  beatScheduled :: "(nat \<times> bool \<times> real) list"
  ticked :: "(nat \<times> bool \<times> real) list"

text \<open>
  The constructor. \<open>options.tempo || 120\<close> and \<open>options.timeSignature || 4\<close> replace a
  missing or zero option by the default; no other value is rejected or clamped.
  Timer handles of the host are integers greater than zero.
\<close>

definition Metronome :: "real option \<Rightarrow> nat option \<Rightarrow> contextState option \<Rightarrow> metronome" where
  "Metronome optTempo optTimeSignature optAudioContext =
     \<lparr> tempo = (case optTempo of None \<Rightarrow> 120 | Some t \<Rightarrow> if t = 0 then 120 else t),
       timeSignature = (case optTimeSignature of None \<Rightarrow> 4 | Some n \<Rightarrow> if n = 0 then 4 else n),
       audioContext = optAudioContext,
       isPlaying = False,
       nextTickTime = 0,
       currentBeat = 0,
       scheduledTicks = [],
       lookahead = 25,
       scheduleAheadTime = 1 / 10,
       timerID = None,
       beatStartTime = 0,
       timeouts = [],
       intervals = [],
       nextHandle = 1,
       generated = [],
       beatScheduled = [],
       ticked = [] \<rparr>"

text \<open>\<open>clearTimeout\<close> and \<open>clearInterval\<close> of the host; an unknown handle is ignored.\<close>

definition clearTimeout :: "nat \<Rightarrow> (nat \<times> timeout) list \<Rightarrow> (nat \<times> timeout) list" where
  "clearTimeout h ts = filter (\<lambda>p. fst p \<noteq> h) ts"

definition clearInterval :: "nat option \<Rightarrow> nat list \<Rightarrow> nat list" where
  "clearInterval h hs = (case h of None \<Rightarrow> hs | Some i \<Rightarrow> filter (\<lambda>j. j \<noteq> i) hs)"

text \<open>
  \<open>start(delayFirstBeat)\<close>. The result pairs the exception thrown, if any, with the state
  the call leaves behind: assignments made before a \<open>throw\<close> stay made.
\<close>

definition start :: "bool \<Rightarrow> real \<Rightarrow> real \<Rightarrow> metronome \<Rightarrow> error option \<times> metronome" where
  "start delayFirstBeat now perfNow m =
     (if isPlaying m then (None, m)
      else if audioContext m = Some Closed then (Some ContextClosed, m)
      else
        let m1 = m\<lparr>isPlaying := True, currentBeat := 0\<rparr> in
        if audioContext m1 = None then (Some TypeError, m1)
        else
          let m2 = (if delayFirstBeat
                    then (let firstBeatDelay = 60 / tempo m1;
                              m' = m1\<lparr>nextTickTime := now + firstBeatDelay\<rparr>
                          in m'\<lparr>beatScheduled := beatScheduled m' @ [(1, True, nextTickTime m')]\<rparr>)
                    else m1\<lparr>nextTickTime := now\<rparr>);
              m3 = m2\<lparr>beatStartTime := perfNow / 1000\<rparr>
          in (None, m3\<lparr>timerID := Some (nextHandle m3),
                         intervals := intervals m3 @ [nextHandle m3],
                         nextHandle := nextHandle m3 + 1\<rparr>))"

text \<open>\<open>stop()\<close>. No statement of it can throw.\<close>

definition stop :: "metronome \<Rightarrow> metronome" where
  "stop m =
     (if \<not> isPlaying m then m
      else
        let m1 = m\<lparr>isPlaying := False, currentBeat := 0\<rparr>;
            m2 = m1\<lparr>intervals := clearInterval (timerID m1) (intervals m1), timerID := None\<rparr>;
            m3 = m2\<lparr>timeouts := fold (\<lambda>tickId ts. if tickId \<noteq> 0 then clearTimeout tickId ts else ts)
                                     (scheduledTicks m2) (timeouts m2)\<rparr>
        in m3\<lparr>scheduledTicks := []\<rparr>)"

definition setTempo :: "real \<Rightarrow> metronome \<Rightarrow> metronome" where
  "setTempo bpm m = m\<lparr>tempo := max 30 (min 300 bpm)\<rparr>"

definition setTimeSignature :: "nat \<Rightarrow> metronome \<Rightarrow> metronome" where
  "setTimeSignature beats m = (m\<lparr>timeSignature := beats\<rparr>)\<lparr>currentBeat := 0\<rparr>"

text \<open>
  \<open>_scheduleTick(time, beatNumber)\<close>, called by the scheduler with the clock value \<open>now\<close>
  it has just read. The call itself is recorded in \<open>generated\<close>.
\<close>

definition scheduleTick :: "real \<Rightarrow> nat \<Rightarrow> real \<Rightarrow> metronome \<Rightarrow> metronome" where
  "scheduleTick time beatNumber now m =
     (let m0 = m\<lparr>generated := generated m @ [(time, beatNumber)]\<rparr>;
          relativeTime = time - now
      in if relativeTime > 0 then
           let tickId = nextHandle m0;
               m1 = m0\<lparr>timeouts := timeouts m0 @
                          [(tickId, \<lparr>delay = relativeTime * 1000, tickBeat = beatNumber, tickTime = time\<rparr>)],
                        nextHandle := tickId + 1\<rparr>;
               m2 = m1\<lparr>scheduledTicks := scheduledTicks m1 @ [tickId]\<rparr>;
               m3 = m2\<lparr>beatScheduled := beatScheduled m2 @ [(beatNumber + 1, beatNumber = 0, time)]\<rparr>
           in if length (scheduledTicks m3) > 20
              then m3\<lparr>scheduledTicks := tl (scheduledTicks m3)\<rparr>
              else m3
         else m0)"

text \<open>The body of the scheduler's \<open>while\<close> loop.\<close>

definition schedulerBody :: "real \<Rightarrow> metronome \<Rightarrow> metronome" where
  "schedulerBody now m =
     (let m1 = scheduleTick (nextTickTime m) (currentBeat m) now m;
          secondsPerBeat = 60 / tempo m1;
          m2 = m1\<lparr>nextTickTime := nextTickTime m1 + secondsPerBeat\<rparr>
      in m2\<lparr>currentBeat := (currentBeat m2 + 1) mod timeSignature m2\<rparr>)"

text \<open>
  \<open>_scheduler()\<close>, one scheduling pass. The loop does not end when the tempo is negative,
  so the pass is a partial function: \<open>None\<close> is a pass that never returns.
\<close>

partial_function (option) scheduler :: "real \<Rightarrow> metronome \<Rightarrow> (error option \<times> metronome) option" where
  "scheduler now m =
     (if audioContext m = None then Some (Some TypeError, m)
      else if nextTickTime m < now + scheduleAheadTime m
      then scheduler now (schedulerBody now m)
      else Some (None, m))"

text \<open>JavaScript's \<open>Math.round\<close>: the nearest integer, a tie going up.\<close>

definition Math_round :: "real \<Rightarrow> real" where
  "Math_round v = of_int \<lfloor>v + 1 / 2\<rfloor>"

text \<open>\<open>getHitAccuracy(hitTime)\<close>: the value returned and the state after the call.\<close>

definition getHitAccuracy :: "real \<Rightarrow> metronome \<Rightarrow> real \<times> metronome" where
  "getHitAccuracy hitTime m =
     (if \<not> isPlaying m then (0, m)
      else
        let beatDuration = 60 / tempo m;
            elapsedTime = hitTime - beatStartTime m;
            expectedBeatPosition = elapsedTime / beatDuration;
            nearestBeat = Math_round expectedBeatPosition;
            distanceFromBeat = \<bar>expectedBeatPosition - nearestBeat\<bar>;
            accuracy = max 0 (1 - distanceFromBeat * 2)
        in (accuracy, m))"

text \<open>
  The score as the specification words it: \<open>beatDuration = 60/tempo\<close>,
  \<open>elapsed = hitTime - measureStartTime\<close>, and
  \<open>max(0, 1 - 2 * |elapsed/beatDuration - round(elapsed/beatDuration)|)\<close>, with \<open>round\<close>
  rounding a tie up.
\<close>

definition spec_accuracy :: "real \<Rightarrow> real \<Rightarrow> real \<Rightarrow> real" where
  "spec_accuracy bpm measureStartTime hitTime =
     (let beatDuration = 60 / bpm;
          elapsed = hitTime - measureStartTime
      in max 0 (1 - 2 * \<bar>elapsed / beatDuration - of_int \<lfloor>elapsed / beatDuration + 1 / 2\<rfloor>\<bar>))"

subsection \<open>The host's timers\<close>

text \<open>
  The interval timer armed by \<open>start\<close> calls \<open>_scheduler\<close> once per firing, each time
  with the clock value of that moment; an exception escaping a pass does not disarm the
  timer. \<open>passes\<close> is a run of such calls, one per clock sample.
\<close>

fun passes :: "real list \<Rightarrow> metronome \<Rightarrow> metronome option" where
  "passes [] m = Some m"
| "passes (now # nows) m =
     (case scheduler now m of None \<Rightarrow> None | Some (e, m') \<Rightarrow> passes nows m')"

text \<open>
  A pending one-shot timer fires: the host drops it from its table and runs the callback
  armed by \<open>_scheduleTick\<close>, which calls \<open>onTick\<close>. A handle that is not pending
  (never armed, already fired, or cleared) fires nothing.
\<close>

definition fireTimeout :: "nat \<Rightarrow> metronome \<Rightarrow> metronome" where
  "fireTimeout h m =
     (case map_of (timeouts m) h of
        None \<Rightarrow> m
      | Some t \<Rightarrow> m\<lparr>timeouts := clearTimeout h (timeouts m),
                     ticked := ticked m @ [(tickBeat t + 1, tickBeat t = 0, tickTime t)]\<rparr>)"

text \<open>The beat index that follows \<open>b\<close> in a measure of \<open>N\<close> beats, as the loop computes it.\<close>

definition nextBeat :: "nat \<Rightarrow> nat \<Rightarrow> nat" where
  "nextBeat N b = (b + 1) mod N"

text \<open>The number of iterations of a pass that starts in \<open>m\<close> at clock value \<open>now\<close>.\<close>

definition passLength :: "real \<Rightarrow> metronome \<Rightarrow> nat" where
  "passLength now m = nat \<lceil>(now + scheduleAheadTime m - nextTickTime m) / (60 / tempo m)\<rceil>"

text \<open>
  The first \<open>n\<close> beats the loop generates from state \<open>m\<close>: beat \<open>i\<close> is due \<open>i\<close> beat
  durations after \<open>nextTickTime\<close> and has the index reached by \<open>i\<close> steps from
  \<open>currentBeat\<close>.
\<close>

definition beatsFrom :: "metronome \<Rightarrow> nat \<Rightarrow> (real \<times> nat) list" where
  "beatsFrom m n =
     map (\<lambda>i. (nextTickTime m + real i * (60 / tempo m),
               (nextBeat (timeSignature m) ^^ i) (currentBeat m))) [0..<n]"

text \<open>
  The arguments \<open>(beatNumber + 1, beatNumber === 0, time)\<close> that \<open>_scheduleTick\<close> passes to
  \<open>onBeatScheduled\<close> and, from the timer callback, to \<open>onTick\<close>, for a generated beat
  \<open>(time, beatNumber)\<close>.
\<close>

definition notification :: "real \<times> nat \<Rightarrow> nat \<times> bool \<times> real" where
  "notification beat = (snd beat + 1, snd beat = 0, fst beat)"

text \<open>
  The timer \<open>_scheduleTick\<close> arms at clock value \<open>now\<close> for a generated beat
  \<open>(time, beatNumber)\<close>: its delay in milliseconds and the values its callback captured.
\<close>

definition timerFor :: "real \<Rightarrow> real \<times> nat \<Rightarrow> timeout" where
  "timerFor now beat =
     \<lparr>delay = (fst beat - now) * 1000, tickBeat = snd beat, tickTime = fst beat\<rparr>"

text \<open>The part of the state that a run of passes carries from one pass to the next.\<close>

definition advanced :: "nat \<Rightarrow> metronome \<Rightarrow> metronome \<Rightarrow> bool" where
  "advanced n m m' \<longleftrightarrow>
     tempo m' = tempo m \<and> timeSignature m' = timeSignature m \<and> audioContext m' = audioContext m
     \<and> scheduleAheadTime m' = scheduleAheadTime m
     \<and> generated m' = generated m @ beatsFrom m n
     \<and> nextTickTime m' = nextTickTime m + real n * (60 / tempo m)
     \<and> currentBeat m' = (nextBeat (timeSignature m) ^^ n) (currentBeat m)"

text \<open>
  The metronome as the application builds it (tempo 120, four beats, a running audio
  context), started at clock value 0 with the first beat delayed.
\<close>

definition runningExample :: metronome where
  "runningExample = snd (start True 0 0 (Metronome (Some 120) (Some 4) (Some Running)))"

text \<open>The same metronome two beats into a measure.\<close>

definition midMeasure :: metronome where
  "midMeasure = runningExample\<lparr>currentBeat := 2\<rparr>"

text \<open>A metronome built without an audio context.\<close>

definition noContextExample :: metronome where
  "noContextExample = Metronome (Some 120) (Some 4) None"

text \<open>
  A metronome built with a tempo of 13200, which the constructor stores as given, and
  started at clock value 0; its first scheduling pass, at clock value 0.025, and the
  state that pass has reached after its first five iterations.
\<close>

definition fastExample :: metronome where
  "fastExample = snd (start True 0 0 (Metronome (Some 13200) (Some 4) (Some Running)))"

definition fastPass :: metronome where
  "fastPass = (schedulerBody (1 / 40) ^^ 27) fastExample"

definition fastLate :: metronome where
  "fastLate = (schedulerBody (1 / 40) ^^ 5) fastExample"

text \<open>What the cap in \<open>_scheduleTick\<close> keeps of a list of handles: the last twenty.\<close>

definition lastTwenty :: "nat list \<Rightarrow> nat list" where
  "lastTwenty hs = drop (length hs - 20) hs"

section \<open>The rhythm visualization (class \<open>MetronomeUI\<close>)\<close>

record beatMarker =
  marker_x :: real
  beatNumber :: nat
  isDownbeat :: bool
  time :: real
  targetTime :: real

record hitMarker =
  hit_x :: real
  accuracy :: real
  opacity :: real

text \<open>
  The fields of the object that the marker code reads or writes. \<open>canvas\<close> is the width of
  the canvas element, \<open>None\<close> when there is no canvas. The DOM controls and the optional
  host callbacks are outside this state.
\<close>

record metronomeUI =
  enabled :: bool
  canvas :: "real option"
  beatMarkers :: "beatMarker list"
  hitMarkers :: "hitMarker list"
  lastBeatTime :: real
  markerSpeed :: real
  showVisualization :: bool
  hitLineX :: real
  firstBeat :: bool
  currentTempo :: int
  secondsPerBeat :: real

definition MetronomeUI :: "real option \<Rightarrow> metronomeUI" where
  "MetronomeUI canvasWidth =
     \<lparr> enabled = False,
       canvas = canvasWidth,
       beatMarkers = [],
       hitMarkers = [],
       lastBeatTime = 0,
       markerSpeed = 2,
       showVisualization = True,
       hitLineX = 80,
       firstBeat = True,
       currentTempo = 120,
       secondsPerBeat = 60 / 120 \<rparr>"

text \<open>
  One turn of the \<open>forEach\<close> in \<open>updateBeatMarkers\<close>; \<open>now\<close> is
  \<open>performance.now() / 1000\<close>. Reading \<open>this.canvas.width\<close> throws when there is no canvas.
\<close>

definition moveBeatMarker :: "real \<Rightarrow> metronomeUI \<Rightarrow> beatMarker \<Rightarrow> error + beatMarker" where
  "moveBeatMarker now ui marker =
     (let timeLeft = targetTime marker - now;
          totalTime = targetTime marker - time marker;
          progress = 1 - timeLeft / totalTime
      in if firstBeat ui then Inr (marker\<lparr>marker_x := hitLineX ui\<rparr>)
         else (case canvas ui of
                 None \<Rightarrow> Inl TypeError
               | Some width \<Rightarrow>
                   let distance = width - hitLineX ui
                   in Inr (marker\<lparr>marker_x := width - progress * distance\<rparr>)))"

fun forEachMarker :: "(beatMarker \<Rightarrow> error + beatMarker) \<Rightarrow> beatMarker list \<Rightarrow> error + beatMarker list" where
  "forEachMarker f [] = Inr []"
| "forEachMarker f (marker # markers) =
     (case f marker of
        Inl e \<Rightarrow> Inl e
      | Inr marker' \<Rightarrow>
          (case forEachMarker f markers of
             Inl e \<Rightarrow> Inl e
           | Inr markers' \<Rightarrow> Inr (marker' # markers')))"

definition updateBeatMarkers :: "real \<Rightarrow> metronomeUI \<Rightarrow> error + metronomeUI" where
  "updateBeatMarkers now ui =
     (case forEachMarker (moveBeatMarker now ui) (beatMarkers ui) of
        Inl e \<Rightarrow> Inl e
      | Inr moved \<Rightarrow> Inr (ui\<lparr>beatMarkers := filter (\<lambda>marker. marker_x marker > - 30) moved\<rparr>))"

definition moveHitMarker :: "metronomeUI \<Rightarrow> hitMarker \<Rightarrow> hitMarker" where
  "moveHitMarker ui marker =
     (let m1 = marker\<lparr>hit_x := hit_x marker - markerSpeed ui\<rparr>;
          m2 = m1\<lparr>opacity := opacity m1 - 1 / 100\<rparr>
      in if opacity m2 < 0 then m2\<lparr>opacity := 0\<rparr> else m2)"

definition updateHitMarkers :: "metronomeUI \<Rightarrow> metronomeUI" where
  "updateHitMarkers ui =
     ui\<lparr>hitMarkers := filter (\<lambda>marker. hit_x marker > - 30 \<and> opacity marker > 0)
                           (map (moveHitMarker ui) (hitMarkers ui))\<rparr>"

text \<open>\<open>addBeatMarker(beatNumber, isDownbeat)\<close>; \<open>now\<close> is \<open>performance.now() / 1000\<close>.\<close>

definition addBeatMarker :: "nat \<Rightarrow> bool \<Rightarrow> real \<Rightarrow> metronomeUI \<Rightarrow> metronomeUI" where
  "addBeatMarker n downbeat now ui =
     (case canvas ui of
        None \<Rightarrow> ui
      | Some width \<Rightarrow>
          let startX = (if firstBeat ui then hitLineX ui else width);
              ui1 = (if firstBeat ui then ui\<lparr>firstBeat := False\<rparr> else ui);
              marker = \<lparr> marker_x = startX, beatNumber = n, isDownbeat = downbeat,
                         time = now, targetTime = now + secondsPerBeat ui1 \<rparr>;
              ui2 = ui1\<lparr>beatMarkers := beatMarkers ui1 @ [marker]\<rparr>
          in ui2\<lparr>lastBeatTime := targetTime marker\<rparr>)"

definition registerNoteHit :: "real \<Rightarrow> metronomeUI \<Rightarrow> metronomeUI" where
  "registerNoteHit accuracyValue ui =
     (if \<not> enabled ui \<or> \<not> showVisualization ui then ui
      else ui\<lparr>hitMarkers := hitMarkers ui @ [\<lparr> hit_x = 80, accuracy = accuracyValue, opacity = 1 \<rparr>]\<rparr>)"

definition updateMarkerSpeed :: "metronomeUI \<Rightarrow> error + metronomeUI" where
  "updateMarkerSpeed ui =
     (case canvas ui of
        None \<Rightarrow> Inl TypeError
      | Some width \<Rightarrow>
          let distanceToHitLine = width - hitLineX ui
          in Inr (ui\<lparr>markerSpeed := distanceToHitLine / (secondsPerBeat ui * 60)\<rparr>))"

text \<open>\<open>handleTempoChange()\<close>; \<open>v\<close> is the integer parsed from the tempo input.\<close>

definition handleTempoChange :: "int \<Rightarrow> metronomeUI \<Rightarrow> error + metronomeUI" where
  "handleTempoChange v ui =
     (let tempo' = min 240 (max 40 v);
          ui1 = ui\<lparr>currentTempo := tempo'\<rparr>;
          ui2 = ui1\<lparr>secondsPerBeat := 60 / of_int (currentTempo ui1)\<rparr>
      in updateMarkerSpeed ui2)"

definition resetVisualization :: "bool \<Rightarrow> metronomeUI \<Rightarrow> error + metronomeUI" where
  "resetVisualization enable ui =
     (let ui1 = ui\<lparr>beatMarkers := [], hitMarkers := []\<rparr>
      in if enable then updateMarkerSpeed (ui1\<lparr>firstBeat := True\<rparr>) else Inr ui1)"

text \<open>
  The \<open>change\<close> listener of the metronome switch: it stores the switch position in
  \<open>enabled\<close> and resets the visualization.
\<close>

definition toggleChange :: "bool \<Rightarrow> metronomeUI \<Rightarrow> error + metronomeUI" where
  "toggleChange checked ui = resetVisualization checked (ui\<lparr>enabled := checked\<rparr>)"

text \<open>
  A visualization on a canvas 400 wide, switched on, with the first beat marker added at
  time 0.
\<close>

definition anchoredExample :: metronomeUI where
  "anchoredExample = addBeatMarker 1 True 0 (projr (toggleChange True (MetronomeUI (Some 400))))"

text \<open>
  A visualization on a canvas 440 wide, switched on, with the tempo then set to \<open>v\<close> and
  one note hit registered.
\<close>

definition hitExample :: "int \<Rightarrow> metronomeUI" where
  "hitExample v =
     registerNoteHit 1 (projr (handleTempoChange v (projr (toggleChange True (MetronomeUI (Some 440))))))"

text \<open>
  A hit marker after \<open>n\<close> frames at a given speed if nothing removes it, and the condition
  under which it is still on screen and not faded then.
\<close>

definition fadedBy :: "real \<Rightarrow> nat \<Rightarrow> hitMarker \<Rightarrow> hitMarker" where
  "fadedBy speed n marker =
     marker\<lparr>hit_x := hit_x marker - real n * speed, opacity := opacity marker - real n / 100\<rparr>"

definition aliveAfter :: "real \<Rightarrow> nat \<Rightarrow> hitMarker \<Rightarrow> bool" where
  "aliveAfter speed n marker \<longleftrightarrow>
     hit_x marker - real n * speed > - 30 \<and> opacity marker - real n / 100 > 0"

section \<open>Properties of the metronome\<close>

subsection \<open>Hit accuracy\<close>

lemma spec_round_int: "\<lfloor>real_of_int k + 1 / 2\<rfloor> = k"
  by linarith

lemma spec_round_half: "\<lfloor>real_of_int k + 1 / 2 + 1 / 2\<rfloor> = k + 1"
  by linarith

lemma position_on_beat:
  fixes bpm :: real
  assumes "bpm \<noteq> 0"
  shows "(s + of_int k * (60 / bpm) - s) / (60 / bpm) = of_int k"
  using assms by simp

lemma position_half_beat:
  fixes bpm :: real
  assumes "bpm \<noteq> 0"
  shows "(s + (of_int k + 1 / 2) * (60 / bpm) - s) / (60 / bpm) = of_int k + 1 / 2"
  using assms by simp

lemma spec_accuracy_on_beat:
  assumes "bpm \<noteq> 0"
  shows "spec_accuracy bpm s (s + of_int k * (60 / bpm)) = 1"
  unfolding spec_accuracy_def Let_def position_on_beat [OF assms] spec_round_int by simp

lemma spec_accuracy_half_beat:
  assumes "bpm \<noteq> 0"
  shows "spec_accuracy bpm s (s + (of_int k + 1 / 2) * (60 / bpm)) = 0"
  unfolding spec_accuracy_def Let_def position_half_beat [OF assms] spec_round_half by simp

lemma spec_accuracy_example:
  assumes "60 / bpm = 1 / 2"
  shows "spec_accuracy bpm s (s + 1 / 20) = 4 / 5"
proof -
  have "\<lfloor>(1::real) / 10 + 1 / 2\<rfloor> = 0" by linarith
  then show ?thesis
    unfolding spec_accuracy_def Let_def assms by simp
qed

lemma getHitAccuracy_spec:
  "fst (getHitAccuracy hitTime m) =
     (if isPlaying m then spec_accuracy (tempo m) (beatStartTime m) hitTime else 0)"
  by (simp add: getHitAccuracy_def spec_accuracy_def Math_round_def Let_def mult.commute)

text \<open>
  C3. \<open>getHitAccuracy(hitTime)\<close> returns 0 when the metronome is not running; otherwise it
  returns the score of the specification,
  \<open>max(0, 1 - 2 * |elapsed/beatDuration - round(elapsed/beatDuration)|)\<close> with
  \<open>beatDuration = 60/tempo\<close> and \<open>elapsed = hitTime - beatStartTime\<close>. Hence a hit exactly
  on a beat boundary (a whole number \<open>k\<close> of beats after the start) scores 1, a hit exactly
  halfway between two beats scores 0, and a hit 0.05 s after the start with a beat of
  0.5 s scores 0.8.
\<close>

theorem getHitAccuracy_correct:
  "fst (getHitAccuracy hitTime m) =
     (if isPlaying m then spec_accuracy (tempo m) (beatStartTime m) hitTime else 0)
   \<and> (isPlaying m \<and> tempo m \<noteq> 0 \<longrightarrow>
        fst (getHitAccuracy (beatStartTime m + of_int k * (60 / tempo m)) m) = 1)
   \<and> (isPlaying m \<and> tempo m \<noteq> 0 \<longrightarrow>
        fst (getHitAccuracy (beatStartTime m + (of_int k + 1 / 2) * (60 / tempo m)) m) = 0)
   \<and> (isPlaying m \<and> 60 / tempo m = 1 / 2 \<longrightarrow>
        fst (getHitAccuracy (beatStartTime m + 1 / 20) m) = 4 / 5)"
proof (intro conjI impI)
  show "fst (getHitAccuracy hitTime m) =
          (if isPlaying m then spec_accuracy (tempo m) (beatStartTime m) hitTime else 0)"
    by (rule getHitAccuracy_spec)
next
  assume "isPlaying m \<and> tempo m \<noteq> 0"
  then have p: "isPlaying m" and nz: "tempo m \<noteq> 0" by simp_all
  show "fst (getHitAccuracy (beatStartTime m + of_int k * (60 / tempo m)) m) = 1"
    by (simp only: getHitAccuracy_spec spec_accuracy_on_beat [OF nz] p if_True)
next
  assume "isPlaying m \<and> tempo m \<noteq> 0"
  then have p: "isPlaying m" and nz: "tempo m \<noteq> 0" by simp_all
  show "fst (getHitAccuracy (beatStartTime m + (of_int k + 1 / 2) * (60 / tempo m)) m) = 0"
    by (simp only: getHitAccuracy_spec spec_accuracy_half_beat [OF nz] p if_True)
next
  assume "isPlaying m \<and> 60 / tempo m = 1 / 2"
  then have p: "isPlaying m" and half: "60 / tempo m = 1 / 2" by simp_all
  show "fst (getHitAccuracy (beatStartTime m + 1 / 20) m) = 4 / 5"
    by (simp only: getHitAccuracy_spec spec_accuracy_example [OF half] p if_True)
qed

lemma runningExample_fields:
  "isPlaying runningExample" "tempo runningExample = 120" "beatStartTime runningExample = 0"
  "timeSignature runningExample = 4" "audioContext runningExample = Some Running"
  "nextTickTime runningExample = 1 / 2" "currentBeat runningExample = 0"
  "scheduleAheadTime runningExample = 1 / 10" "generated runningExample = []"
  "beatScheduled runningExample = [(1, True, 1 / 2)]" "timeouts runningExample = []"
  "scheduledTicks runningExample = []" "nextHandle runningExample = 2"
  "intervals runningExample = [1]" "timerID runningExample = Some 1" "ticked runningExample = []"
  by (simp_all add: runningExample_def start_def Metronome_def Let_def)

theorem getHitAccuracy_correct_witness:
  "isPlaying runningExample \<and> tempo runningExample \<noteq> 0 \<and> 60 / tempo runningExample = 1 / 2
   \<and> fst (getHitAccuracy (3 / 2) runningExample) = 1
   \<and> fst (getHitAccuracy (7 / 4) runningExample) = 0
   \<and> fst (getHitAccuracy (1 / 20) runningExample) = 4 / 5
   \<and> fst (getHitAccuracy (1 / 20) (stop runningExample)) = 0"
  using getHitAccuracy_correct [of "3 / 2" runningExample 3]
        getHitAccuracy_correct [of "1 / 20" "stop runningExample" 3]
  by (simp add: runningExample_fields stop_def Let_def)

subsection \<open>Idempotence of \<open>stop\<close> and \<open>start\<close>\<close>

text \<open>
  C9. \<open>stop()\<close> on a stopped metronome changes nothing (and \<open>stop\<close> has no throwing path),
  so \<open>stop(); stop()\<close> leaves the state \<open>stop()\<close> leaves; \<open>start()\<close> on a running metronome
  returns without an exception and changes nothing.
\<close>

theorem stop_start_idempotent:
  "(\<not> isPlaying m \<longrightarrow> stop m = m)
   \<and> stop (stop m) = stop m
   \<and> (isPlaying m \<longrightarrow> start delayFirstBeat now perfNow m = (None, m))"
  by (simp add: stop_def start_def Let_def)

theorem stop_start_idempotent_witness:
  "\<not> isPlaying (stop runningExample)
   \<and> stop (stop runningExample) = stop runningExample
   \<and> isPlaying runningExample
   \<and> start True 5 5000 runningExample = (None, runningExample)"
  using stop_start_idempotent [of "stop runningExample" True 5 5000]
        stop_start_idempotent [of runningExample True 5 5000]
  by (simp add: runningExample_fields stop_def Let_def)

subsection \<open>\<open>getHitAccuracy\<close> only reads\<close>

text \<open>
  C10. \<open>getHitAccuracy(hitTime)\<close> leaves every field of the metronome and the host's timer
  table as they were, and a second call from the same state with the same \<open>hitTime\<close>
  returns the same value.
\<close>

theorem getHitAccuracy_pure:
  "snd (getHitAccuracy hitTime m) = m
   \<and> fst (getHitAccuracy hitTime (snd (getHitAccuracy hitTime m))) = fst (getHitAccuracy hitTime m)"
  by (simp add: getHitAccuracy_def Let_def)

theorem getHitAccuracy_pure_witness:
  "snd (getHitAccuracy (1 / 20) runningExample) = runningExample
   \<and> fst (getHitAccuracy (1 / 20) (snd (getHitAccuracy (1 / 20) runningExample))) = 4 / 5"
  using getHitAccuracy_pure [of "1 / 20" runningExample]
        spec_accuracy_example [of 120 0]
  by (simp add: getHitAccuracy_spec runningExample_fields)

subsection \<open>The scheduling loop\<close>

lemma scheduleTick_fields:
  "tempo (scheduleTick t b now m) = tempo m"
  "timeSignature (scheduleTick t b now m) = timeSignature m"
  "audioContext (scheduleTick t b now m) = audioContext m"
  "scheduleAheadTime (scheduleTick t b now m) = scheduleAheadTime m"
  "nextTickTime (scheduleTick t b now m) = nextTickTime m"
  "currentBeat (scheduleTick t b now m) = currentBeat m"
  "isPlaying (scheduleTick t b now m) = isPlaying m"
  "generated (scheduleTick t b now m) = generated m @ [(t, b)]"
  by (simp_all add: scheduleTick_def Let_def)

lemma schedulerBody_fields:
  "tempo (schedulerBody now m) = tempo m"
  "timeSignature (schedulerBody now m) = timeSignature m"
  "audioContext (schedulerBody now m) = audioContext m"
  "scheduleAheadTime (schedulerBody now m) = scheduleAheadTime m"
  "isPlaying (schedulerBody now m) = isPlaying m"
  "nextTickTime (schedulerBody now m) = nextTickTime m + 60 / tempo m"
  "currentBeat (schedulerBody now m) = (currentBeat m + 1) mod timeSignature m"
  "generated (schedulerBody now m) = generated m @ [(nextTickTime m, currentBeat m)]"
  by (simp_all add: schedulerBody_def Let_def scheduleTick_fields)

lemma iter_fields:
  "tempo ((schedulerBody now ^^ n) m) = tempo m"
  "timeSignature ((schedulerBody now ^^ n) m) = timeSignature m"
  "audioContext ((schedulerBody now ^^ n) m) = audioContext m"
  "scheduleAheadTime ((schedulerBody now ^^ n) m) = scheduleAheadTime m"
  "isPlaying ((schedulerBody now ^^ n) m) = isPlaying m"
  by (induction n) (simp_all add: schedulerBody_fields)

lemma iter_nextTickTime:
  "nextTickTime ((schedulerBody now ^^ n) m) = nextTickTime m + real n * (60 / tempo m)"
proof (induction n)
  case 0
  show ?case by simp
next
  case (Suc n)
  have "nextTickTime ((schedulerBody now ^^ Suc n) m)
          = nextTickTime ((schedulerBody now ^^ n) m) + 60 / tempo m"
    by (simp add: schedulerBody_fields iter_fields)
  also have "\<dots> = nextTickTime m + (real n * (60 / tempo m) + 60 / tempo m)"
    unfolding Suc.IH by (simp only: add.assoc)
  also have "real n * (60 / tempo m) + 60 / tempo m = real (Suc n) * (60 / tempo m)"
    by (simp only: of_nat_Suc distrib_right mult_1)
  finally show ?case .
qed

lemma iter_currentBeat:
  "currentBeat ((schedulerBody now ^^ n) m) = (nextBeat (timeSignature m) ^^ n) (currentBeat m)"
  by (induction n) (simp_all add: schedulerBody_fields iter_fields nextBeat_def)

lemma iter_generated:
  "generated ((schedulerBody now ^^ n) m) =
     generated m @ map (\<lambda>i. (nextTickTime m + real i * (60 / tempo m),
                              (nextBeat (timeSignature m) ^^ i) (currentBeat m))) [0..<n]"
  by (induction n) (simp_all add: schedulerBody_fields iter_nextTickTime iter_currentBeat)


lemma count_0:
  fixes d :: real
  assumes "0 < d" "\<not> x < L"
  shows "nat \<lceil>(L - x) / d\<rceil> = 0"
proof -
  have "(L - x) / d \<le> 0" using assms by (simp add: divide_le_0_iff)
  then show ?thesis by simp
qed

lemma count_Suc:
  fixes d :: real
  assumes "0 < d" "x < L"
  shows "nat \<lceil>(L - x) / d\<rceil> = Suc (nat \<lceil>(L - (x + d)) / d\<rceil>)"
proof -
  define y where "y = (L - x) / d"
  have y: "0 < y" using assms by (simp add: y_def)
  have "(L - (x + d)) / d = y - 1"
    using assms by (simp add: y_def field_simps)
  moreover have "0 < \<lceil>y\<rceil>" using y by simp
  ultimately show ?thesis
    unfolding y_def [symmetric] by (simp add: nat_diff_distrib)
qed

lemma beat_positive: "0 < tempo m \<Longrightarrow> 0 < 60 / tempo m"
  by simp

lemma passLength_0:
  assumes "0 < tempo m" "\<not> nextTickTime m < now + scheduleAheadTime m"
  shows "passLength now m = 0"
  unfolding passLength_def using count_0 [OF beat_positive [OF assms(1)] assms(2)] .

lemma passLength_Suc:
  assumes "0 < tempo m" "nextTickTime m < now + scheduleAheadTime m"
  shows "passLength now m = Suc (passLength now (schedulerBody now m))"
  unfolding passLength_def schedulerBody_fields
  using count_Suc [OF beat_positive [OF assms(1)] assms(2)] .

lemma scheduler_funpow:
  assumes "0 < tempo m" "audioContext m \<noteq> None"
  shows "scheduler now m = Some (None, (schedulerBody now ^^ passLength now m) m)"
  using assms
proof (induction "passLength now m" arbitrary: m)
  case 0
  then have "\<not> nextTickTime m < now + scheduleAheadTime m"
    using passLength_Suc [of m now] by auto
  with 0 show ?case by (subst scheduler.simps) simp
next
  case (Suc n)
  have lt: "nextTickTime m < now + scheduleAheadTime m"
    using Suc.hyps(2) passLength_0 [of m now] Suc.prems by auto
  then have n: "n = passLength now (schedulerBody now m)"
    using passLength_Suc [of m now] Suc.hyps(2) Suc.prems by simp
  have "scheduler now (schedulerBody now m)
          = Some (None, (schedulerBody now ^^ passLength now (schedulerBody now m)) (schedulerBody now m))"
    using Suc.hyps(1) [OF n] Suc.prems by (simp add: schedulerBody_fields)
  then show ?case
    using lt Suc.prems n Suc.hyps(2) [symmetric]
    by (subst scheduler.simps) (simp add: funpow_swap1)
qed

lemma passLength_bound:
  assumes "0 < tempo m"
  shows "(\<forall>i < passLength now m. nextTickTime m + real i * (60 / tempo m) < now + scheduleAheadTime m)
       \<and> \<not> nextTickTime m + real (passLength now m) * (60 / tempo m) < now + scheduleAheadTime m"
proof -
  define d where "d = 60 / tempo m"
  define y where "y = (now + scheduleAheadTime m - nextTickTime m) / d"
  have d: "0 < d" using assms by (simp add: d_def)
  have n: "passLength now m = nat \<lceil>y\<rceil>" by (simp add: passLength_def y_def d_def)
  have eq: "now + scheduleAheadTime m = nextTickTime m + y * d"
    using d by (simp add: y_def)
  have "real i < y" if "i < nat \<lceil>y\<rceil>" for i
    using that by linarith
  moreover have "y \<le> real (nat \<lceil>y\<rceil>)" by linarith
  ultimately show ?thesis
    unfolding n eq d_def [symmetric] using d by (auto simp: not_less)
qed


lemma iter_generated': "generated ((schedulerBody now ^^ n) m) = generated m @ beatsFrom m n"
  by (simp add: iter_generated beatsFrom_def)

lemma scheduleTick_beatScheduled:
  "beatScheduled (scheduleTick t b now m) =
     beatScheduled m @ (if now < t then [notification (t, b)] else [])"
  by (simp add: scheduleTick_def Let_def notification_def)

lemma schedulerBody_beatScheduled:
  "beatScheduled (schedulerBody now m) =
     beatScheduled m @ (if now < nextTickTime m then [notification (nextTickTime m, currentBeat m)] else [])"
  by (simp add: schedulerBody_def Let_def scheduleTick_beatScheduled)

lemma beatsFrom_Suc:
  "beatsFrom m (Suc n) =
     beatsFrom m n @ [(nextTickTime ((schedulerBody now ^^ n) m), currentBeat ((schedulerBody now ^^ n) m))]"
  by (simp add: beatsFrom_def iter_nextTickTime iter_currentBeat)

lemma iter_beatScheduled:
  "beatScheduled ((schedulerBody now ^^ n) m) =
     beatScheduled m @ map notification (filter (\<lambda>beat. now < fst beat) (beatsFrom m n))"
proof (induction n)
  case 0
  show ?case by (simp add: beatsFrom_def)
next
  case (Suc n)
  show ?case
    unfolding beatsFrom_Suc [of m n now]
    by (simp add: schedulerBody_beatScheduled Suc.IH)
qed

lemma beatsFrom_length: "length (beatsFrom m n) = n"
  by (simp add: beatsFrom_def)

lemma beatsFrom_nth:
  "i < n \<Longrightarrow> beatsFrom m n ! i =
     (nextTickTime m + real i * (60 / tempo m), (nextBeat (timeSignature m) ^^ i) (currentBeat m))"
  by (simp add: beatsFrom_def)

lemma time_step:
  fixes d :: real
  shows "x + real (Suc i) * d = x + real i * d + d"
  by (simp add: distrib_right)

lemma time_add:
  fixes d :: real
  shows "x + real n * d + real i * d = x + real (n + i) * d"
  by (simp add: distrib_right)

lemma beatsFrom_consecutive:
  assumes "Suc i < n"
  shows "fst (beatsFrom m n ! Suc i) = fst (beatsFrom m n ! i) + 60 / tempo m"
    and "snd (beatsFrom m n ! Suc i) = (snd (beatsFrom m n ! i) + 1) mod timeSignature m"
proof -
  have i: "i < n" using assms by simp
  show "fst (beatsFrom m n ! Suc i) = fst (beatsFrom m n ! i) + 60 / tempo m"
    unfolding beatsFrom_nth [OF assms] beatsFrom_nth [OF i]
    by (simp only: fst_conv time_step)
  show "snd (beatsFrom m n ! Suc i) = (snd (beatsFrom m n ! i) + 1) mod timeSignature m"
    unfolding beatsFrom_nth [OF assms] beatsFrom_nth [OF i]
    by (simp add: nextBeat_def)
qed

lemma advanced_iter: "advanced n m ((schedulerBody now ^^ n) m)"
  by (simp add: advanced_def iter_fields iter_generated' iter_nextTickTime iter_currentBeat)

lemma funpow_after:
  "(f ^^ i) ((f ^^ n) x) = (f ^^ (n + i)) x"
proof -
  have "(f ^^ (i + n)) x = (f ^^ i) ((f ^^ n) x)" by (simp only: funpow_add comp_apply)
  then show ?thesis by (simp only: add.commute [of n i])
qed

lemma upt_split: "[0..<n + k] = [0..<n] @ map (\<lambda>i. n + i) [0..<k]"
  by (induction k) simp_all

lemma beatsFrom_add:
  assumes "advanced n m m'"
  shows "beatsFrom m (n + k) = beatsFrom m n @ beatsFrom m' k"
proof -
  have e: "tempo m' = tempo m" "timeSignature m' = timeSignature m"
    "nextTickTime m' = nextTickTime m + real n * (60 / tempo m)"
    "currentBeat m' = (nextBeat (timeSignature m) ^^ n) (currentBeat m)"
    using assms by (simp_all only: advanced_def)
  have t: "nextTickTime m' + real i * (60 / tempo m') = nextTickTime m + real (n + i) * (60 / tempo m)" for i
    unfolding e by (rule time_add)
  have b: "(nextBeat (timeSignature m') ^^ i) (currentBeat m')
             = (nextBeat (timeSignature m) ^^ (n + i)) (currentBeat m)" for i
    unfolding e by (rule funpow_after)
  show ?thesis
    unfolding beatsFrom_def t b upt_split by (simp only: map_append map_map comp_def)
qed

lemma advanced_trans:
  assumes "advanced n m m'" "advanced k m' m''"
  shows "advanced (n + k) m m''"
proof -
  have e: "tempo m' = tempo m" "timeSignature m' = timeSignature m"
    "audioContext m' = audioContext m" "scheduleAheadTime m' = scheduleAheadTime m"
    "generated m' = generated m @ beatsFrom m n"
    "nextTickTime m' = nextTickTime m + real n * (60 / tempo m)"
    "currentBeat m' = (nextBeat (timeSignature m) ^^ n) (currentBeat m)"
    using assms(1) by (simp_all only: advanced_def)
  have f: "tempo m'' = tempo m'" "timeSignature m'' = timeSignature m'"
    "audioContext m'' = audioContext m'" "scheduleAheadTime m'' = scheduleAheadTime m'"
    "generated m'' = generated m' @ beatsFrom m' k"
    "nextTickTime m'' = nextTickTime m' + real k * (60 / tempo m')"
    "currentBeat m'' = (nextBeat (timeSignature m') ^^ k) (currentBeat m')"
    using assms(2) by (simp_all only: advanced_def)
  have "generated m'' = generated m @ beatsFrom m (n + k)"
    unfolding f(5) e(5) beatsFrom_add [OF assms(1)] by simp
  moreover have "nextTickTime m'' = nextTickTime m + real (n + k) * (60 / tempo m)"
    unfolding f(6) e(6) e(1) by (rule time_add)
  moreover have "currentBeat m'' = (nextBeat (timeSignature m) ^^ (n + k)) (currentBeat m)"
    unfolding f(7) e(7) e(2) by (rule funpow_after)
  moreover have "tempo m'' = tempo m" "timeSignature m'' = timeSignature m"
    "audioContext m'' = audioContext m" "scheduleAheadTime m'' = scheduleAheadTime m"
    by (simp_all only: e f)
  ultimately show ?thesis
    unfolding advanced_def by blast
qed

lemma passes_advanced:
  assumes "0 < tempo m" "audioContext m \<noteq> None"
  shows "\<exists>n m'. passes nows m = Some m' \<and> advanced n m m'"
  using assms
proof (induction nows arbitrary: m)
  case Nil
  have "advanced 0 m m" by (simp add: advanced_def beatsFrom_def)
  then show ?case by auto
next
  case (Cons now nows)
  define m1 where "m1 = (schedulerBody now ^^ passLength now m) m"
  have s: "scheduler now m = Some (None, m1)"
    unfolding m1_def by (rule scheduler_funpow [OF Cons.prems])
  have a1: "advanced (passLength now m) m m1"
    unfolding m1_def by (rule advanced_iter)
  then have "0 < tempo m1" "audioContext m1 \<noteq> None"
    using Cons.prems by (simp_all add: advanced_def)
  from Cons.IH [OF this] obtain k m' where k: "passes nows m1 = Some m'" "advanced k m1 m'"
    by blast
  have "passes (now # nows) m = Some m'" using s k(1) by simp
  moreover have "advanced (passLength now m + k) m m'" by (rule advanced_trans [OF a1 k(2)])
  ultimately show ?case by blast
qed

lemma beatsFrom_hd:
  assumes "0 < n"
  shows "beatsFrom m n = (nextTickTime m, currentBeat m) # tl (beatsFrom m n)"
proof -
  have ne: "beatsFrom m n \<noteq> []" using assms beatsFrom_length [of m n] by auto
  have "hd (beatsFrom m n) = beatsFrom m n ! 0" using ne by (simp add: hd_conv_nth)
  also have "\<dots> = (nextTickTime m, currentBeat m)" using beatsFrom_nth [OF assms, of m] by simp
  finally show ?thesis using ne by (metis list.collapse)
qed

lemma setTimeSignature_fields:
  "currentBeat (setTimeSignature k m) = 0" "timeSignature (setTimeSignature k m) = k"
  "tempo (setTimeSignature k m) = tempo m" "audioContext (setTimeSignature k m) = audioContext m"
  "nextTickTime (setTimeSignature k m) = nextTickTime m" "generated (setTimeSignature k m) = generated m"
  "beatScheduled (setTimeSignature k m) = beatScheduled m"
  "scheduleAheadTime (setTimeSignature k m) = scheduleAheadTime m"
  "isPlaying (setTimeSignature k m) = isPlaying m"
  by (simp_all add: setTimeSignature_def)

lemma passes_first_beat:
  assumes "0 < tempo m" "audioContext m \<noteq> None"
  shows "\<exists>bs m'. passes nows m = Some m' \<and> generated m' = generated m @ bs
           \<and> (bs \<noteq> [] \<longrightarrow> hd bs = (nextTickTime m, currentBeat m))"
proof -
  from passes_advanced [OF assms] obtain n m' where p: "passes nows m = Some m'" and a: "advanced n m m'"
    by blast
  have g: "generated m' = generated m @ beatsFrom m n" using a by (simp only: advanced_def)
  have "hd (beatsFrom m n) = (nextTickTime m, currentBeat m)" if "beatsFrom m n \<noteq> []"
  proof -
    have "0 < n" using that beatsFrom_length [of m n] by (cases n) auto
    from beatsFrom_hd [OF this, of m] show ?thesis by (metis list.sel(1))
  qed
  with p g show ?thesis by blast
qed

lemma pass_first_notification:
  assumes "0 < tempo m" "audioContext m \<noteq> None"
    and "now < nextTickTime m" "nextTickTime m < now + scheduleAheadTime m"
  shows "\<exists>rest m'. scheduler now m = Some (None, m')
           \<and> beatScheduled m' = beatScheduled m @ notification (nextTickTime m, currentBeat m) # rest"
proof -
  let ?n = "passLength now m"
  have "0 < ?n" using passLength_Suc [OF assms(1) assms(4)] by simp
  from beatsFrom_hd [OF this, of m]
  have "map notification (filter (\<lambda>beat. now < fst beat) (beatsFrom m ?n))
          = notification (nextTickTime m, currentBeat m)
            # map notification (filter (\<lambda>beat. now < fst beat) (tl (beatsFrom m ?n)))"
    using assms(3) by (metis (mono_tags, lifting) filter.simps(2) fst_conv list.simps(9))
  then show ?thesis
    using scheduler_funpow [OF assms(1,2), of now] iter_beatScheduled [where now = now and n = "?n" and m = m] by simp
qed

lemma start_fields:
  assumes "\<not> isPlaying m" "audioContext m = Some c" "c \<noteq> Closed"
  shows "fst (start d now p m) = None" "currentBeat (snd (start d now p m)) = 0"
    "tempo (snd (start d now p m)) = tempo m" "audioContext (snd (start d now p m)) = audioContext m"
    "generated (snd (start d now p m)) = generated m"
    "timeSignature (snd (start d now p m)) = timeSignature m"
  using assms by (simp_all add: start_def Let_def)

lemma schedulerBody_timers:
  "timeouts (schedulerBody now m) =
     timeouts m @ (if now < nextTickTime m
                   then [(nextHandle m, \<lparr>delay = (nextTickTime m - now) * 1000,
                                          tickBeat = currentBeat m, tickTime = nextTickTime m\<rparr>)]
                   else [])"
  "nextHandle (schedulerBody now m) = (if now < nextTickTime m then nextHandle m + 1 else nextHandle m)"
  "scheduledTicks (schedulerBody now m) =
     (if now < nextTickTime m
      then (if length (scheduledTicks m) + 1 > 20 then tl (scheduledTicks m @ [nextHandle m])
            else scheduledTicks m @ [nextHandle m])
      else scheduledTicks m)"
  "ticked (schedulerBody now m) = ticked m"
  by (simp_all add: schedulerBody_def scheduleTick_def Let_def)

lemma iter_ticked: "ticked ((schedulerBody now ^^ n) m) = ticked m"
  by (induction n) (simp_all add: schedulerBody_timers)

lemma scheduleTick_timers:
  "timeouts (scheduleTick t b now m) =
     timeouts m @ (if now < t then [(nextHandle m, timerFor now (t, b))] else [])"
  "nextHandle (scheduleTick t b now m) = (if now < t then nextHandle m + 1 else nextHandle m)"
  "ticked (scheduleTick t b now m) = ticked m"
  by (simp_all add: scheduleTick_def timerFor_def Let_def)

lemma scheduleTick_late:
  "\<not> now < t \<Longrightarrow> scheduleTick t b now m = m\<lparr>generated := generated m @ [(t, b)]\<rparr>"
  by (simp add: scheduleTick_def Let_def)

lemma fire_armed_timer:
  assumes "now < t" "nextHandle m \<notin> fst ` set (timeouts m)"
  shows "ticked (fireTimeout (nextHandle m) (scheduleTick t b now m)) = ticked m @ [(b + 1, b = 0, t)]"
proof -
  have "map_of (timeouts m) (nextHandle m) = None"
    using assms(2) by (simp add: map_of_eq_None_iff)
  then have "map_of (timeouts (scheduleTick t b now m)) (nextHandle m) = Some (timerFor now (t, b))"
    using assms(1) by (simp add: scheduleTick_timers map_add_def)
  then show ?thesis
    by (simp add: fireTimeout_def scheduleTick_timers timerFor_def)
qed

lemma iter_timeouts:
  "map snd (timeouts ((schedulerBody now ^^ n) m)) =
     map snd (timeouts m) @ map (timerFor now) (filter (\<lambda>beat. now < fst beat) (beatsFrom m n))"
proof (induction n)
  case 0
  show ?case by (simp add: beatsFrom_def)
next
  case (Suc n)
  show ?case
    unfolding beatsFrom_Suc [of m n now]
    by (simp add: schedulerBody_timers timerFor_def Suc.IH)
qed

lemma passLength_example: "passLength 1 runningExample = 2"
proof -
  have "\<lceil>(6::real) / 5\<rceil> = 2" by linarith
  then show ?thesis by (simp add: passLength_def runningExample_fields)
qed

lemma beatsFrom_example: "beatsFrom runningExample 2 = [(1 / 2, 0), (1, 1)]"
  by (simp add: beatsFrom_def runningExample_fields nextBeat_def numeral_2_eq_2)

text \<open>
  C1. With a tempo \<open>T\<close> in \<open>[30, 300]\<close> and \<open>N\<close> beats per measure, a scheduling pass
  returns, and it has run the loop exactly while \<open>nextTickTime < now + scheduleAheadTime\<close>:
  the \<open>i\<close>-th iteration hands beat \<open>i\<close> to the dispatcher, due \<open>i * 60/T\<close> after the
  first and with the index \<open>i\<close> steps of \<open>(b + 1) mod N\<close> after the first, and the pass
  leaves \<open>nextTickTime\<close> and \<open>currentBeat\<close> advanced by the number of iterations. Over
  any run of passes the beats generated are therefore, one after the other, exactly
  \<open>60/T\<close> apart, strictly increasing in target time, and one step apart in index.
\<close>

theorem scheduler_pass_beats:
  assumes "30 \<le> tempo m" and "tempo m \<le> 300" and "0 < timeSignature m" and "audioContext m \<noteq> None"
  shows "(\<exists>n m'. scheduler now m = Some (None, m')
            \<and> (\<forall>i<n. nextTickTime m + real i * (60 / tempo m) < now + scheduleAheadTime m)
            \<and> \<not> nextTickTime m + real n * (60 / tempo m) < now + scheduleAheadTime m
            \<and> generated m' = generated m @
                 map (\<lambda>i. (nextTickTime m + real i * (60 / tempo m),
                           (nextBeat (timeSignature m) ^^ i) (currentBeat m))) [0..<n]
            \<and> nextTickTime m' = nextTickTime m + real n * (60 / tempo m)
            \<and> currentBeat m' = (nextBeat (timeSignature m) ^^ n) (currentBeat m))
       \<and> (\<exists>bs m'. passes nows m = Some m' \<and> generated m' = generated m @ bs
            \<and> (\<forall>i. Suc i < length bs \<longrightarrow>
                   fst (bs ! Suc i) = fst (bs ! i) + 60 / tempo m
                 \<and> fst (bs ! i) < fst (bs ! Suc i)
                 \<and> snd (bs ! Suc i) = (snd (bs ! i) + 1) mod timeSignature m))"
proof (rule conjI)
  have pos: "0 < tempo m" using assms(1) by simp
  let ?n = "passLength now m" and ?m' = "(schedulerBody now ^^ passLength now m) m"
  have "scheduler now m = Some (None, ?m')"
    by (rule scheduler_funpow [OF pos assms(4)])
  moreover note passLength_bound [OF pos, of now]
  moreover have "generated ?m' = generated m @
                 map (\<lambda>i. (nextTickTime m + real i * (60 / tempo m),
                           (nextBeat (timeSignature m) ^^ i) (currentBeat m))) [0..<?n]"
    by (rule iter_generated)
  moreover have "nextTickTime ?m' = nextTickTime m + real ?n * (60 / tempo m)"
    by (rule iter_nextTickTime)
  moreover have "currentBeat ?m' = (nextBeat (timeSignature m) ^^ ?n) (currentBeat m)"
    by (rule iter_currentBeat)
  ultimately show "\<exists>n m'. scheduler now m = Some (None, m')
            \<and> (\<forall>i<n. nextTickTime m + real i * (60 / tempo m) < now + scheduleAheadTime m)
            \<and> \<not> nextTickTime m + real n * (60 / tempo m) < now + scheduleAheadTime m
            \<and> generated m' = generated m @
                 map (\<lambda>i. (nextTickTime m + real i * (60 / tempo m),
                           (nextBeat (timeSignature m) ^^ i) (currentBeat m))) [0..<n]
            \<and> nextTickTime m' = nextTickTime m + real n * (60 / tempo m)
            \<and> currentBeat m' = (nextBeat (timeSignature m) ^^ n) (currentBeat m)"
    by blast
next
  have pos: "0 < tempo m" using assms(1) by simp
  from passes_advanced [OF pos assms(4)] obtain n m'
    where p: "passes nows m = Some m'" and a: "advanced n m m'" by blast
  have g: "generated m' = generated m @ beatsFrom m n" using a by (simp add: advanced_def)
  have d: "0 < 60 / tempo m" using pos by simp
  have "fst (beatsFrom m n ! Suc i) = fst (beatsFrom m n ! i) + 60 / tempo m
        \<and> fst (beatsFrom m n ! i) < fst (beatsFrom m n ! Suc i)
        \<and> snd (beatsFrom m n ! Suc i) = (snd (beatsFrom m n ! i) + 1) mod timeSignature m"
    if "Suc i < length (beatsFrom m n)" for i
  proof -
    have lt: "Suc i < n" using that by (simp add: beatsFrom_length)
    show ?thesis
      using beatsFrom_consecutive [OF lt, of m] d by linarith
  qed
  with p g show "\<exists>bs m'. passes nows m = Some m' \<and> generated m' = generated m @ bs
            \<and> (\<forall>i. Suc i < length bs \<longrightarrow>
                   fst (bs ! Suc i) = fst (bs ! i) + 60 / tempo m
                 \<and> fst (bs ! i) < fst (bs ! Suc i)
                 \<and> snd (bs ! Suc i) = (snd (bs ! i) + 1) mod timeSignature m)"
    by blast
qed

theorem scheduler_pass_beats_witness:
  "30 \<le> tempo runningExample \<and> tempo runningExample \<le> 300
   \<and> 0 < timeSignature runningExample \<and> audioContext runningExample \<noteq> None
   \<and> (\<exists>m'. scheduler 1 runningExample = Some (None, m')
          \<and> generated m' = [(1 / 2, 0), (1, 1)] \<and> nextTickTime m' = 3 / 2 \<and> currentBeat m' = 2)"
proof -
  have h: "30 \<le> tempo runningExample" "tempo runningExample \<le> 300"
    "0 < timeSignature runningExample" "audioContext runningExample \<noteq> None"
    by (simp_all add: runningExample_fields)
  from scheduler_pass_beats [OF h, of 1 "[]"] obtain n m'
    where s: "scheduler 1 runningExample = Some (None, m')"
      and lo: "\<forall>i<n. nextTickTime runningExample + real i * (60 / tempo runningExample)
                      < 1 + scheduleAheadTime runningExample"
      and hi: "\<not> nextTickTime runningExample + real n * (60 / tempo runningExample)
                  < 1 + scheduleAheadTime runningExample"
      and g: "generated m' = generated runningExample @
                 map (\<lambda>i. (nextTickTime runningExample + real i * (60 / tempo runningExample),
                           (nextBeat (timeSignature runningExample) ^^ i) (currentBeat runningExample)))
                     [0..<n]"
      and t: "nextTickTime m' = nextTickTime runningExample + real n * (60 / tempo runningExample)"
      and b: "currentBeat m' = (nextBeat (timeSignature runningExample) ^^ n) (currentBeat runningExample)"
    by blast
  have "\<not> 2 < n"
  proof
    assume "2 < n"
    with lo have "nextTickTime runningExample + real 2 * (60 / tempo runningExample)
                    < 1 + scheduleAheadTime runningExample" by blast
    then show False by (simp add: runningExample_fields)
  qed
  moreover have "1 < real n" using hi by (simp add: runningExample_fields)
  ultimately have n: "n = 2" by simp
  have "generated m' = [(1 / 2, 0), (1, 1)]" "nextTickTime m' = 3 / 2" "currentBeat m' = 2"
    unfolding g t b n
    by (simp_all add: runningExample_fields nextBeat_def numeral_2_eq_2)
  with s h show ?thesis by blast
qed

text \<open>
  C7. \<open>setTimeSignature(k)\<close> stores \<open>k\<close> and sets \<open>currentBeat\<close> to 0, whatever it was and
  whether or not the metronome is running. The next beat a scheduling pass generates
  afterwards is therefore the one with index 0, whose notifications carry
  \<open>beatNumber = 1\<close> and \<open>isDownbeat = true\<close>; when that beat lies ahead of the clock, the
  first \<open>onBeatScheduled\<close> of the pass is \<open>(1, true, nextTickTime)\<close>. For a stopped
  metronome the passes begin after \<open>start\<close>, and the first beat is again a downbeat.
\<close>

theorem setTimeSignature_next_downbeat:
  "currentBeat (setTimeSignature k m) = 0 \<and> timeSignature (setTimeSignature k m) = k
   \<and> (0 < tempo m \<and> audioContext m \<noteq> None \<longrightarrow>
        (\<exists>bs m'. passes nows (setTimeSignature k m) = Some m' \<and> generated m' = generated m @ bs
            \<and> (bs \<noteq> [] \<longrightarrow> hd bs = (nextTickTime m, 0)
                           \<and> notification (hd bs) = (1, True, nextTickTime m))))
   \<and> (0 < tempo m \<and> audioContext m \<noteq> None
        \<and> now < nextTickTime m \<and> nextTickTime m < now + scheduleAheadTime m \<longrightarrow>
        (\<exists>rest m'. scheduler now (setTimeSignature k m) = Some (None, m')
            \<and> beatScheduled m' = beatScheduled m @ (1, True, nextTickTime m) # rest))
   \<and> (0 < tempo m \<and> \<not> isPlaying m \<and> audioContext m = Some c \<and> c \<noteq> Closed \<longrightarrow>
        (\<exists>bs m'. passes nows (snd (start d startNow p (setTimeSignature k m))) = Some m'
            \<and> generated m' = generated m @ bs
            \<and> (bs \<noteq> [] \<longrightarrow> notification (hd bs) = (1, True, fst (hd bs)))))"
proof (intro conjI impI)
  show "currentBeat (setTimeSignature k m) = 0" "timeSignature (setTimeSignature k m) = k"
    by (simp_all add: setTimeSignature_fields)
next
  assume "0 < tempo m \<and> audioContext m \<noteq> None"
  then have h: "0 < tempo (setTimeSignature k m)" "audioContext (setTimeSignature k m) \<noteq> None"
    by (simp_all add: setTimeSignature_fields)
  from passes_first_beat [OF h, of nows]
  show "\<exists>bs m'. passes nows (setTimeSignature k m) = Some m' \<and> generated m' = generated m @ bs
            \<and> (bs \<noteq> [] \<longrightarrow> hd bs = (nextTickTime m, 0)
                           \<and> notification (hd bs) = (1, True, nextTickTime m))"
    by (auto simp: setTimeSignature_fields notification_def)
next
  assume a: "0 < tempo m \<and> audioContext m \<noteq> None
        \<and> now < nextTickTime m \<and> nextTickTime m < now + scheduleAheadTime m"
  then have h: "0 < tempo (setTimeSignature k m)" "audioContext (setTimeSignature k m) \<noteq> None"
    "now < nextTickTime (setTimeSignature k m)"
    "nextTickTime (setTimeSignature k m) < now + scheduleAheadTime (setTimeSignature k m)"
    by (simp_all add: setTimeSignature_fields)
  from pass_first_notification [OF h]
  show "\<exists>rest m'. scheduler now (setTimeSignature k m) = Some (None, m')
            \<and> beatScheduled m' = beatScheduled m @ (1, True, nextTickTime m) # rest"
    by (simp add: setTimeSignature_fields notification_def)
next
  assume a: "0 < tempo m \<and> \<not> isPlaying m \<and> audioContext m = Some c \<and> c \<noteq> Closed"
  let ?m1 = "setTimeSignature k m"
  let ?m2 = "snd (start d startNow p ?m1)"
  have s: "\<not> isPlaying ?m1" "audioContext ?m1 = Some c" "c \<noteq> Closed"
    using a by (simp_all add: setTimeSignature_fields)
  have h: "0 < tempo ?m2" "audioContext ?m2 \<noteq> None"
    using a by (simp_all add: start_fields [OF s] setTimeSignature_fields)
  have cb: "currentBeat ?m2 = 0" by (rule start_fields [OF s])
  have g: "generated ?m2 = generated m" by (simp add: start_fields [OF s] setTimeSignature_fields)
  from passes_first_beat [OF h, of nows]
  show "\<exists>bs m'. passes nows ?m2 = Some m' \<and> generated m' = generated m @ bs
            \<and> (bs \<noteq> [] \<longrightarrow> notification (hd bs) = (1, True, fst (hd bs)))"
    unfolding cb g by (auto simp: notification_def)
qed

lemma midMeasure_fields:
  "tempo (midMeasure) = 120" "audioContext midMeasure = Some Running"
  "nextTickTime midMeasure = 1 / 2" "scheduleAheadTime midMeasure = 1 / 10"
  "currentBeat midMeasure = 2" "isPlaying midMeasure" "beatScheduled midMeasure = [(1, True, 1 / 2)]"
  "generated midMeasure = []"
  by (simp_all add: midMeasure_def runningExample_fields)

theorem setTimeSignature_next_downbeat_witness:
  "0 < tempo midMeasure \<and> audioContext midMeasure \<noteq> None \<and> currentBeat midMeasure = 2
   \<and> 9 / 20 < nextTickTime midMeasure
   \<and> nextTickTime midMeasure < 9 / 20 + scheduleAheadTime midMeasure
   \<and> (\<exists>rest m'. scheduler (9 / 20) (setTimeSignature 3 midMeasure) = Some (None, m')
          \<and> beatScheduled m' = [(1, True, 1 / 2), (1, True, 1 / 2)] @ rest)
   \<and> \<not> isPlaying (stop midMeasure) \<and> audioContext (stop midMeasure) = Some Running
   \<and> (\<exists>bs m'. passes [9 / 20] (snd (start True 0 0 (setTimeSignature 3 (stop midMeasure)))) = Some m'
          \<and> generated m' = bs \<and> (bs \<noteq> [] \<longrightarrow> notification (hd bs) = (1, True, fst (hd bs))))"
  using setTimeSignature_next_downbeat [where k = 3 and m = midMeasure and nows = "[9 / 20]"
          and now = "9 / 20" and c = Running and d = True and startNow = 0 and p = 0]
        setTimeSignature_next_downbeat [where k = 3 and m = "stop midMeasure" and nows = "[9 / 20]"
          and now = "9 / 20" and c = Running and d = True and startNow = 0 and p = 0]
  by (simp add: midMeasure_fields stop_def Let_def)

text \<open>
  C4, as the code has it. Every beat the scheduler generates is handed to
  \<open>_scheduleTick\<close>, which, exactly when the beat's target time is later than the clock
  value read, calls \<open>onBeatScheduled(beatNumber + 1, beatNumber === 0, time)\<close> at once,
  during the pass, and arms one timer for the tick, whose firing calls \<open>onTick\<close> with the
  same arguments; \<open>onTick\<close> itself is never called during the pass. For a beat whose
  target time is not later the call changes nothing: no notification, no timer, no
  handle, so no tick can fire for it. So a pass notifies, and arms timers for, exactly
  those of its beats that lie ahead of the clock, in order.
\<close>

theorem scheduleTick_notifies_future_beats:
  "generated (scheduleTick t b now m) = generated m @ [(t, b)]
   \<and> beatScheduled (scheduleTick t b now m)
       = beatScheduled m @ (if now < t then [(b + 1, b = 0, t)] else [])
   \<and> timeouts (scheduleTick t b now m)
       = timeouts m @ (if now < t
                       then [(nextHandle m, \<lparr>delay = (t - now) * 1000, tickBeat = b, tickTime = t\<rparr>)]
                       else [])
   \<and> ticked (scheduleTick t b now m) = ticked m
   \<and> (\<not> now < t \<longrightarrow> scheduleTick t b now m = m\<lparr>generated := generated m @ [(t, b)]\<rparr>)
   \<and> (now < t \<and> nextHandle m \<notin> fst ` set (timeouts m) \<longrightarrow>
        ticked (fireTimeout (nextHandle m) (scheduleTick t b now m)) = ticked m @ [(b + 1, b = 0, t)])
   \<and> (0 < tempo m \<and> audioContext m \<noteq> None \<longrightarrow>
        (\<exists>bs m'. scheduler now m = Some (None, m') \<and> generated m' = generated m @ bs
           \<and> beatScheduled m' = beatScheduled m
                @ map notification (filter (\<lambda>beat. now < fst beat) bs)
           \<and> map snd (timeouts m') = map snd (timeouts m)
                @ map (timerFor now) (filter (\<lambda>beat. now < fst beat) bs)
           \<and> ticked m' = ticked m))"
proof (intro conjI impI)
  show "generated (scheduleTick t b now m) = generated m @ [(t, b)]"
    by (rule scheduleTick_fields)
  show "beatScheduled (scheduleTick t b now m)
       = beatScheduled m @ (if now < t then [(b + 1, b = 0, t)] else [])"
    by (simp add: scheduleTick_beatScheduled notification_def)
  show "timeouts (scheduleTick t b now m)
       = timeouts m @ (if now < t
                       then [(nextHandle m, \<lparr>delay = (t - now) * 1000, tickBeat = b, tickTime = t\<rparr>)]
                       else [])"
    by (simp add: scheduleTick_timers timerFor_def)
  show "ticked (scheduleTick t b now m) = ticked m"
    by (rule scheduleTick_timers)
next
  assume "\<not> now < t"
  then show "scheduleTick t b now m = m\<lparr>generated := generated m @ [(t, b)]\<rparr>"
    by (rule scheduleTick_late)
next
  assume "now < t \<and> nextHandle m \<notin> fst ` set (timeouts m)"
  then have h: "now < t" "nextHandle m \<notin> fst ` set (timeouts m)" by simp_all
  show "ticked (fireTimeout (nextHandle m) (scheduleTick t b now m)) = ticked m @ [(b + 1, b = 0, t)]"
    by (rule fire_armed_timer [OF h])
next
  assume "0 < tempo m \<and> audioContext m \<noteq> None"
  then have h: "0 < tempo m" "audioContext m \<noteq> None" by simp_all
  show "\<exists>bs m'. scheduler now m = Some (None, m') \<and> generated m' = generated m @ bs
           \<and> beatScheduled m' = beatScheduled m
                @ map notification (filter (\<lambda>beat. now < fst beat) bs)
           \<and> map snd (timeouts m') = map snd (timeouts m)
                @ map (timerFor now) (filter (\<lambda>beat. now < fst beat) bs)
           \<and> ticked m' = ticked m"
    using scheduler_funpow [OF h, of now]
      iter_generated' [where now = now and n = "passLength now m" and m = m]
      iter_beatScheduled [where now = now and n = "passLength now m" and m = m]
      iter_timeouts [where now = now and n = "passLength now m" and m = m]
      iter_ticked [where now = now and n = "passLength now m" and m = m] by blast
qed

theorem scheduleTick_notifies_future_beats_witness:
  "0 < tempo runningExample \<and> audioContext runningExample \<noteq> None
   \<and> nextHandle runningExample \<notin> fst ` set (timeouts runningExample)
   \<and> beatScheduled (scheduleTick (1 / 2) 0 (9 / 20) runningExample)
       = [(1, True, 1 / 2), (1, True, 1 / 2)]
   \<and> timeouts (scheduleTick (1 / 2) 0 (9 / 20) runningExample)
       = [(2, \<lparr>delay = 50, tickBeat = 0, tickTime = 1 / 2\<rparr>)]
   \<and> ticked (fireTimeout 2 (scheduleTick (1 / 2) 0 (9 / 20) runningExample)) = [(1, True, 1 / 2)]
   \<and> \<not> (1::real) < 1
   \<and> beatScheduled (scheduleTick 1 1 1 runningExample) = [(1, True, 1 / 2)]
   \<and> timeouts (scheduleTick 1 1 1 runningExample) = []
   \<and> scheduledTicks (scheduleTick 1 1 1 runningExample) = []
   \<and> ticked (scheduleTick 1 1 1 runningExample) = []
   \<and> (\<exists>bs m'. scheduler 1 runningExample = Some (None, m') \<and> generated m' = bs
          \<and> beatScheduled m' = (1, True, 1 / 2) # map notification (filter (\<lambda>beat. 1 < fst beat) bs)
          \<and> map snd (timeouts m') = map (timerFor 1) (filter (\<lambda>beat. 1 < fst beat) bs)
          \<and> ticked m' = [])"
  using scheduleTick_notifies_future_beats [of "1 / 2" 0 "9 / 20" runningExample]
        scheduleTick_notifies_future_beats [of 1 1 1 runningExample]
  by (simp add: runningExample_fields)

text \<open>
  C4 as stated fails when a pass runs late. The application's metronome, started at 0,
  gets its first pass at clock value 1: the pass generates the beats due at 0.5 and at
  1.0, and \<open>onBeatScheduled\<close> is called for neither; the only notification on record is
  the one \<open>start\<close> itself sent, and beat 2 (due at 1.0) is never announced.
\<close>

theorem late_beat_not_notified:
  "map_option (generated \<circ> snd) (scheduler 1 runningExample) = Some [(1 / 2, 0), (1, 1)]
   \<and> map_option (beatScheduled \<circ> snd) (scheduler 1 runningExample) = Some [(1, True, 1 / 2)]"
proof -
  have h: "0 < tempo runningExample" "audioContext runningExample \<noteq> None"
    by (simp_all add: runningExample_fields)
  show ?thesis
    unfolding scheduler_funpow [OF h] passLength_example
    by (simp add: iter_generated' iter_beatScheduled beatsFrom_example runningExample_fields)
qed

subsection \<open>Starting without a usable clock\<close>

lemma start_closed_unchanged:
  "\<not> isPlaying m \<Longrightarrow> audioContext m = Some Closed \<Longrightarrow> start d now p m = (Some ContextClosed, m)"
  by (simp add: start_def)

text \<open>
  C6. With a closed audio context \<open>start\<close> throws before it assigns anything (lemma
  \<open>start_closed_unchanged\<close>). With no audio context at all the guard lets the call
  through: \<open>start\<close> sets \<open>isPlaying\<close> and resets \<open>currentBeat\<close>, and only then throws a
  \<open>TypeError\<close> on reading \<open>this.audioContext.currentTime\<close>. The stopped metronome is left
  marked as running, with no timer armed.
\<close>

theorem start_without_context:
  "\<not> isPlaying noContextExample
   \<and> fst (start True 0 0 noContextExample) = Some TypeError
   \<and> isPlaying (snd (start True 0 0 noContextExample))
   \<and> snd (start True 0 0 noContextExample) \<noteq> noContextExample"
proof -
  have a: "\<not> isPlaying noContextExample" by (simp add: noContextExample_def Metronome_def)
  have b: "fst (start True 0 0 noContextExample) = Some TypeError"
    by (simp add: noContextExample_def Metronome_def start_def Let_def)
  have c: "isPlaying (snd (start True 0 0 noContextExample))"
    by (simp add: noContextExample_def Metronome_def start_def Let_def)
  from a c have "snd (start True 0 0 noContextExample) \<noteq> noContextExample" by metis
  with a b c show ?thesis by blast
qed

subsection \<open>Cancelling pending ticks\<close>

lemma fold_clearTimeout:
  "fold (\<lambda>tickId ts. if 0 < tickId then clearTimeout tickId ts else ts) hs ts
     = filter (\<lambda>p. fst p = 0 \<or> fst p \<notin> set hs) ts"
proof (induction hs arbitrary: ts)
  case Nil
  show ?case by simp
next
  case (Cons h hs)
  show ?case
  proof (cases "h = 0")
    case True
    have "filter (\<lambda>p. fst p = 0 \<or> fst p \<notin> set hs) ts
            = filter (\<lambda>p. fst p = 0 \<or> fst p \<notin> set (h # hs)) ts"
      using True by (intro filter_cong) auto
    then show ?thesis using True by (simp add: Cons.IH)
  next
    case False
    have "filter (\<lambda>p. fst p = 0 \<or> fst p \<notin> set hs) (filter (\<lambda>p. fst p \<noteq> h) ts)
            = filter (\<lambda>p. fst p = 0 \<or> fst p \<notin> set (h # hs)) ts"
      using False unfolding filter_filter by (intro filter_cong) auto
    then show ?thesis using False by (simp add: Cons.IH clearTimeout_def)
  qed
qed

lemma map_of_filter_keep:
  "P k \<Longrightarrow> map_of (filter (\<lambda>p. P (fst p)) xs) k = map_of xs k"
  by (induction xs) auto

lemma stop_timeouts:
  "isPlaying m \<Longrightarrow>
     timeouts (stop m) = filter (\<lambda>p. fst p = 0 \<or> fst p \<notin> set (scheduledTicks m)) (timeouts m)"
  by (simp add: stop_def Let_def fold_clearTimeout)

lemma stop_cancels_recorded:
  assumes "isPlaying m" "h \<noteq> 0" "h \<in> set (scheduledTicks m)"
  shows "map_of (timeouts (stop m)) h = None" "fireTimeout h (stop m) = stop m"
proof -
  have "h \<notin> fst ` set (timeouts (stop m))"
    using assms by (auto simp: stop_timeouts)
  then show "map_of (timeouts (stop m)) h = None" by (simp add: map_of_eq_None_iff)
  then show "fireTimeout h (stop m) = stop m" by (simp add: fireTimeout_def)
qed




lemma fastExample_fields:
  "isPlaying fastExample" "tempo fastExample = 13200" "timeSignature fastExample = 4"
  "audioContext fastExample = Some Running" "nextTickTime fastExample = 1 / 220"
  "currentBeat fastExample = 0" "scheduleAheadTime fastExample = 1 / 10"
  "timeouts fastExample = []" "scheduledTicks fastExample = []" "nextHandle fastExample = 2"
  "ticked fastExample = []"
  by (simp_all add: fastExample_def start_def Metronome_def Let_def)

lemma fast_passLength: "passLength (1 / 40) fastExample = 27"
proof -
  have "\<lceil>(53::real) / 2\<rceil> = 27" by linarith
  then show ?thesis by (simp add: passLength_def fastExample_fields)
qed

lemma fastPass_scheduler: "scheduler (1 / 40) fastExample = Some (None, fastPass)"
proof -
  have h: "0 < tempo fastExample" "audioContext fastExample \<noteq> None"
    by (simp_all add: fastExample_fields)
  show ?thesis
    unfolding fastPass_def fast_passLength [symmetric] by (rule scheduler_funpow [OF h])
qed

lemma lastTwenty_short: "length hs \<le> 20 \<Longrightarrow> lastTwenty hs = hs"
  by (simp add: lastTwenty_def)

lemma lastTwenty_push:
  "(if length (lastTwenty hs) + 1 > 20 then tl (lastTwenty hs @ [h]) else lastTwenty hs @ [h])
     = lastTwenty (hs @ [h])"
proof (cases "length hs < 20")
  case True
  then show ?thesis by (simp add: lastTwenty_def)
next
  case False
  then have len: "20 \<le> length hs" by simp
  then have ne: "drop (length hs - 20) hs \<noteq> []" by simp
  have "tl (drop (length hs - 20) hs @ [h]) = drop (Suc (length hs - 20)) hs @ [h]"
    using ne by (simp add: drop_Suc tl_drop)
  moreover have "Suc (length hs) - 20 = Suc (length hs - 20)" using len by simp
  ultimately show ?thesis using len by (simp add: lastTwenty_def)
qed

lemma iter_late:
  assumes "\<forall>i<n. \<not> now < nextTickTime m + real i * (60 / tempo m)"
  shows "timeouts ((schedulerBody now ^^ n) m) = timeouts m
       \<and> nextHandle ((schedulerBody now ^^ n) m) = nextHandle m
       \<and> scheduledTicks ((schedulerBody now ^^ n) m) = scheduledTicks m"
  using assms
proof (induction n)
  case 0
  show ?case by simp
next
  case (Suc n)
  have "\<not> now < nextTickTime ((schedulerBody now ^^ n) m)"
    using Suc.prems by (simp add: iter_nextTickTime)
  moreover have "\<forall>i<n. \<not> now < nextTickTime m + real i * (60 / tempo m)"
    using Suc.prems by auto
  ultimately show ?case
    using Suc.IH by (simp add: schedulerBody_timers)
qed

lemma iter_timeouts_prefix:
  "\<exists>ext. timeouts ((schedulerBody now ^^ n) m) = timeouts m @ ext"
proof (induction n)
  case 0
  show ?case by simp
next
  case (Suc n)
  then obtain ext where "timeouts ((schedulerBody now ^^ n) m) = timeouts m @ ext" by blast
  then show ?case by (simp add: schedulerBody_timers)
qed

lemma iter_future:
  assumes "0 < tempo m" "now < nextTickTime m" "length (scheduledTicks m) \<le> 20"
  shows "nextHandle ((schedulerBody now ^^ n) m) = nextHandle m + n
       \<and> scheduledTicks ((schedulerBody now ^^ n) m)
           = lastTwenty (scheduledTicks m @ [nextHandle m..<nextHandle m + n])"
proof (induction n)
  case 0
  show ?case using assms(3) by (simp add: lastTwenty_short)
next
  case (Suc n)
  have "0 \<le> real n * (60 / tempo m)" using assms(1) by simp
  then have fut: "now < nextTickTime ((schedulerBody now ^^ n) m)"
    using assms(2) unfolding iter_nextTickTime by linarith
  have h: "nextHandle ((schedulerBody now ^^ n) m) = nextHandle m + n"
    and st: "scheduledTicks ((schedulerBody now ^^ n) m)
               = lastTwenty (scheduledTicks m @ [nextHandle m..<nextHandle m + n])"
    using Suc.IH by simp_all
  have "nextHandle ((schedulerBody now ^^ Suc n) m) = nextHandle m + Suc n"
    using fut h by (simp add: schedulerBody_timers)
  moreover have "scheduledTicks ((schedulerBody now ^^ Suc n) m)
                   = lastTwenty ((scheduledTicks m @ [nextHandle m..<nextHandle m + n]) @ [nextHandle m + n])"
    using fut unfolding lastTwenty_push [symmetric]
    by (simp add: schedulerBody_timers h st)
  ultimately show ?case by simp
qed

lemma fastLate_fields:
  "tempo fastLate = 13200" "nextTickTime fastLate = 3 / 110" "currentBeat fastLate = 1"
  "timeouts fastLate = []" "nextHandle fastLate = 2" "scheduledTicks fastLate = []"
proof -
  have late: "\<forall>i<5. \<not> 1 / 40 < nextTickTime fastExample + real i * (60 / tempo fastExample)"
  proof (intro allI impI)
    fix i :: nat assume "i < 5"
    then have "real i \<le> 4" by simp
    then show "\<not> 1 / 40 < nextTickTime fastExample + real i * (60 / tempo fastExample)"
      by (simp add: fastExample_fields)
  qed
  show "tempo fastLate = 13200" by (simp add: fastLate_def iter_fields fastExample_fields)
  show "nextTickTime fastLate = 3 / 110"
    by (simp add: fastLate_def iter_nextTickTime fastExample_fields)
  have five: "(5::nat) = Suc (Suc (Suc (Suc (Suc 0))))" by simp
  have "(nextBeat 4 ^^ 5) 0 = 1"
    unfolding five by (simp add: nextBeat_def)
  then show "currentBeat fastLate = 1"
    by (simp add: fastLate_def iter_currentBeat fastExample_fields)
  show "timeouts fastLate = []" "nextHandle fastLate = 2" "scheduledTicks fastLate = []"
    using iter_late [OF late] by (simp_all add: fastLate_def fastExample_fields)
qed

lemma fastPass_split:
  "fastPass = (schedulerBody (1 / 40) ^^ 22) fastLate"
  "fastPass = (schedulerBody (1 / 40) ^^ 21) (schedulerBody (1 / 40) fastLate)"
proof -
  have "(5::nat) + 22 = 27" by simp
  then show a: "fastPass = (schedulerBody (1 / 40) ^^ 22) fastLate"
    unfolding fastPass_def fastLate_def funpow_after by (simp only:)
  have "(22::nat) = Suc 21" by simp
  then show "fastPass = (schedulerBody (1 / 40) ^^ 21) (schedulerBody (1 / 40) fastLate)"
    unfolding a by (simp only: funpow_Suc_right comp_apply)
qed

lemma fastPass_fields:
  "isPlaying fastPass" "ticked fastPass = []"
  "map_of (timeouts fastPass) 2 = Some \<lparr>delay = 25 / 11, tickBeat = 1, tickTime = 3 / 110\<rparr>"
  "scheduledTicks fastPass = [4..<24]"
proof -
  show "isPlaying fastPass" by (simp add: fastPass_def iter_fields fastExample_fields)
  show "ticked fastPass = []" by (simp add: fastPass_def iter_ticked fastExample_fields)
  let ?m6 = "schedulerBody (1 / 40) fastLate"
  have t6: "timeouts ?m6 = [(2, \<lparr>delay = 25 / 11, tickBeat = 1, tickTime = 3 / 110\<rparr>)]"
    by (simp add: schedulerBody_timers fastLate_fields)
  obtain ext where "timeouts fastPass = timeouts ?m6 @ ext"
    unfolding fastPass_split(2) using iter_timeouts_prefix by blast
  then show "map_of (timeouts fastPass) 2 = Some \<lparr>delay = 25 / 11, tickBeat = 1, tickTime = 3 / 110\<rparr>"
    by (simp add: t6)
  have h: "0 < tempo fastLate" "1 / 40 < nextTickTime fastLate" "length (scheduledTicks fastLate) \<le> 20"
    by (simp_all add: fastLate_fields)
  have "scheduledTicks fastPass = lastTwenty [2..<24]"
    unfolding fastPass_split(1) using iter_future [OF h, of 22] by (simp add: fastLate_fields)
  then show "scheduledTicks fastPass = [4..<24]"
    by (simp add: lastTwenty_def)
qed

lemma armed_passLength: "passLength (9 / 20) runningExample = 1"
proof -
  have "\<lceil>(1::real) / 10\<rceil> = 1" by linarith
  then show ?thesis by (simp add: passLength_def runningExample_fields)
qed

text \<open>
  The scenario of a stop while a beat is pending: the application's metronome has armed
  the tick of its first beat (due at 0.5) in the pass at 0.45; \<open>stop\<close> clears that timer,
  and its handle fires nothing afterwards.
\<close>

lemma stop_cancels_pending_beat:
  "scheduler (9 / 20) runningExample = Some (None, schedulerBody (9 / 20) runningExample)
   \<and> map fst (timeouts (schedulerBody (9 / 20) runningExample)) = [2]
   \<and> timeouts (stop (schedulerBody (9 / 20) runningExample)) = []
   \<and> intervals (stop (schedulerBody (9 / 20) runningExample)) = []
   \<and> ticked (fireTimeout 2 (stop (schedulerBody (9 / 20) runningExample))) = []"
proof -
  have h: "0 < tempo runningExample" "audioContext runningExample \<noteq> None"
    by (simp_all add: runningExample_fields)
  have s: "scheduler (9 / 20) runningExample = Some (None, schedulerBody (9 / 20) runningExample)"
    unfolding scheduler_funpow [OF h] armed_passLength by simp
  have p: "isPlaying (schedulerBody (9 / 20) runningExample)"
    by (simp add: schedulerBody_fields runningExample_fields)
  have t: "map fst (timeouts (schedulerBody (9 / 20) runningExample)) = [2]"
    "scheduledTicks (schedulerBody (9 / 20) runningExample) = [2]"
    "ticked (schedulerBody (9 / 20) runningExample) = []"
    by (simp_all add: schedulerBody_timers runningExample_fields)
  have e: "timeouts (stop (schedulerBody (9 / 20) runningExample)) = []"
    unfolding stop_timeouts [OF p] t(2) using t(1) by (auto simp: filter_empty_conv)
  have i: "intervals (stop (schedulerBody (9 / 20) runningExample)) = []"
    using p by (simp add: stop_def Let_def clearInterval_def schedulerBody_def scheduleTick_def
                  runningExample_fields)
  have k: "ticked (stop (schedulerBody (9 / 20) runningExample)) = []"
    using p t(3) by (simp add: stop_def Let_def)
  show ?thesis using s t(1) e i k by (simp add: fireTimeout_def)
qed

text \<open>
  C2. \<open>stop\<close> clears the timers whose handles are in \<open>scheduledTicks\<close> (lemma
  \<open>stop_cancels_recorded\<close>), but \<open>_scheduleTick\<close> drops the oldest handle from that list
  once it holds more than twenty, without clearing its timer. The metronome built with
  tempo 13200 arms 22 ticks in its first pass; the handles of the first two are dropped,
  \<open>stop\<close> right after the pass leaves their timers pending, and the first of them then
  fires \<open>onTick(2, false, 3/110)\<close> on the stopped metronome.
\<close>

theorem stop_leaves_evicted_tick:
  "scheduler (1 / 40) fastExample = Some (None, fastPass)
   \<and> map_of (timeouts fastPass) 2 = Some \<lparr>delay = 25 / 11, tickBeat = 1, tickTime = 3 / 110\<rparr>
   \<and> map_of (timeouts (stop fastPass)) 2 = Some \<lparr>delay = 25 / 11, tickBeat = 1, tickTime = 3 / 110\<rparr>
   \<and> ticked (stop fastPass) = []
   \<and> ticked (fireTimeout 2 (stop fastPass)) = [(2, False, 3 / 110)]"
proof -
  have st: "timeouts (stop fastPass)
              = filter (\<lambda>p. fst p = 0 \<or> fst p \<notin> set (scheduledTicks fastPass)) (timeouts fastPass)"
    by (rule stop_timeouts) (rule fastPass_fields)
  have keep: "map_of (timeouts (stop fastPass)) 2 = map_of (timeouts fastPass) 2"
    unfolding st
    by (rule map_of_filter_keep [where P = "\<lambda>k. k = 0 \<or> k \<notin> set (scheduledTicks fastPass)"])
       (simp add: fastPass_fields)
  have tk: "ticked (stop fastPass) = []"
    by (simp add: stop_def Let_def fastPass_fields)
  show ?thesis
    using fastPass_scheduler keep tk
    by (simp add: fastPass_fields fireTimeout_def)
qed

section \<open>Properties of the visualization\<close>

subsection \<open>The first beat marker\<close>

lemma forEachMarker_total:
  assumes "\<And>marker. f marker = Inr (g marker)"
  shows "forEachMarker f markers = Inr (map g markers)"
  by (induction markers) (simp_all add: assms)

lemma addBeatMarker_clears_firstBeat:
  "canvas ui = Some w \<Longrightarrow> \<not> firstBeat (addBeatMarker n d now ui)"
  by (simp add: addBeatMarker_def Let_def)

lemma updateBeatMarkers_interpolates:
  assumes "canvas ui = Some w" "\<not> firstBeat ui"
  shows "updateBeatMarkers now ui =
     Inr (ui\<lparr>beatMarkers := filter (\<lambda>marker. marker_x marker > - 30)
           (map (\<lambda>marker. marker\<lparr>marker_x :=
                   w - (1 - (targetTime marker - now) / (targetTime marker - time marker)) * (w - hitLineX ui)\<rparr>)
                (beatMarkers ui))\<rparr>)"
proof -
  have "forEachMarker (moveBeatMarker now ui) (beatMarkers ui) =
          Inr (map (\<lambda>marker. marker\<lparr>marker_x :=
                   w - (1 - (targetTime marker - now) / (targetTime marker - time marker)) * (w - hitLineX ui)\<rparr>)
                (beatMarkers ui))"
    by (rule forEachMarker_total) (simp add: moveBeatMarker_def Let_def assms)
  then show ?thesis by (simp add: updateBeatMarkers_def)
qed

lemma toggle_400:
  "toggleChange True (MetronomeUI (Some 400)) =
     Inr ((MetronomeUI (Some 400))\<lparr>enabled := True, markerSpeed := 32 / 3\<rparr>)"
  by (simp add: toggleChange_def resetVisualization_def updateMarkerSpeed_def MetronomeUI_def Let_def)

lemma anchoredExample_fields:
  "canvas anchoredExample = Some 400" "\<not> firstBeat anchoredExample" "hitLineX anchoredExample = 80"
  "beatMarkers anchoredExample =
     [\<lparr>marker_x = 80, beatNumber = 1, isDownbeat = True, time = 0, targetTime = 1 / 2\<rparr>]"
  unfolding anchoredExample_def toggle_400
  by (simp_all add: addBeatMarker_def MetronomeUI_def Let_def)

text \<open>
  C5. \<open>addBeatMarker\<close> places the first marker after a restart at the hit line and clears
  the \<open>firstBeat\<close> flag; \<open>updateBeatMarkers\<close> keeps markers at the hit line only while
  that flag is set, so from the next frame on the first marker is interpolated like any
  other. On a canvas 400 wide the marker created at time 0 (at x = 80, the hit line) is
  at x = 336 in the frame drawn at time 0.1.
\<close>

theorem first_marker_not_pinned:
  "map marker_x (beatMarkers anchoredExample) = [80]
   \<and> hitLineX anchoredExample = 80
   \<and> map_sum id (map marker_x \<circ> beatMarkers) (updateBeatMarkers (1 / 10) anchoredExample) = Inr [336]"
  by (simp add: updateBeatMarkers_interpolates [OF anchoredExample_fields(1,2)] anchoredExample_fields)

subsection \<open>Hit markers\<close>

lemma toggle_440:
  "toggleChange True (MetronomeUI (Some 440)) =
     Inr ((MetronomeUI (Some 440))\<lparr>enabled := True, markerSpeed := 12\<rparr>)"
  by (simp add: toggleChange_def resetVisualization_def updateMarkerSpeed_def MetronomeUI_def Let_def)

lemma hitExample_fields:
  "markerSpeed (hitExample 60) = 6" "markerSpeed (hitExample 120) = 12"
  "hitMarkers (hitExample 60) = [\<lparr>hit_x = 80, accuracy = 1, opacity = 1\<rparr>]"
  "hitMarkers (hitExample 120) = [\<lparr>hit_x = 80, accuracy = 1, opacity = 1\<rparr>]"
  "currentTempo (hitExample 60) = 60" "currentTempo (hitExample 120) = 120"
  unfolding hitExample_def toggle_440
  by (simp_all add: handleTempoChange_def updateMarkerSpeed_def
        registerNoteHit_def MetronomeUI_def Let_def)

lemma updateHitMarkers_fields:
  "markerSpeed (updateHitMarkers ui) = markerSpeed ui"
  "hitMarkers (updateHitMarkers ui) =
     filter (\<lambda>marker. hit_x marker > - 30 \<and> opacity marker > 0) (map (moveHitMarker ui) (hitMarkers ui))"
  by (simp_all add: updateHitMarkers_def)

lemma frames_markerSpeed: "markerSpeed ((updateHitMarkers ^^ n) ui) = markerSpeed ui"
  by (induction n) (simp_all add: updateHitMarkers_fields)

lemma first_frame:
  "filter (\<lambda>marker. hit_x marker > - 30 \<and> opacity marker > 0) (map (moveHitMarker ui) ms)
     = map (fadedBy (markerSpeed ui) 1) (filter (aliveAfter (markerSpeed ui) 1) ms)"
  by (induction ms) (auto simp: moveHitMarker_def fadedBy_def aliveAfter_def Let_def)

lemma next_frame:
  assumes "0 \<le> markerSpeed ui"
  shows "filter (\<lambda>marker. hit_x marker > - 30 \<and> opacity marker > 0)
           (map (moveHitMarker ui) (map (fadedBy (markerSpeed ui) k) (filter (aliveAfter (markerSpeed ui) k) ms)))
         = map (fadedBy (markerSpeed ui) (Suc k)) (filter (aliveAfter (markerSpeed ui) (Suc k)) ms)"
proof (induction ms)
  case Nil
  show ?case by simp
next
  case (Cons mk ms)
  have mono: "aliveAfter (markerSpeed ui) (Suc k) mk \<Longrightarrow> aliveAfter (markerSpeed ui) k mk"
    using assms by (auto simp: aliveAfter_def algebra_simps)
  have move: "moveHitMarker ui (fadedBy (markerSpeed ui) k mk) = fadedBy (markerSpeed ui) (Suc k) mk"
    if "aliveAfter (markerSpeed ui) (Suc k) mk"
    using that by (simp add: moveHitMarker_def fadedBy_def aliveAfter_def Let_def algebra_simps)
  have gone: "\<not> (hit_x (moveHitMarker ui (fadedBy (markerSpeed ui) k mk)) > - 30
               \<and> opacity (moveHitMarker ui (fadedBy (markerSpeed ui) k mk)) > 0)"
    if "\<not> aliveAfter (markerSpeed ui) (Suc k) mk"
    using that by (auto simp: moveHitMarker_def fadedBy_def aliveAfter_def Let_def algebra_simps)
  have kept: "hit_x (fadedBy (markerSpeed ui) (Suc k) mk) > - 30
               \<and> opacity (fadedBy (markerSpeed ui) (Suc k) mk) > 0"
    if "aliveAfter (markerSpeed ui) (Suc k) mk"
    using that by (simp add: fadedBy_def aliveAfter_def)
  show ?case
  proof (cases "aliveAfter (markerSpeed ui) (Suc k) mk")
    case True
    then show ?thesis using mono move kept Cons.IH by simp
  next
    case False
    then show ?thesis using gone Cons.IH by (cases "aliveAfter (markerSpeed ui) k mk") simp_all
  qed
qed

lemma frames_hitMarkers:
  assumes "0 \<le> markerSpeed ui"
  shows "hitMarkers ((updateHitMarkers ^^ Suc n) ui)
           = map (fadedBy (markerSpeed ui) (Suc n)) (filter (aliveAfter (markerSpeed ui) (Suc n)) (hitMarkers ui))"
proof (induction n)
  case 0
  show ?case by (simp add: updateHitMarkers_fields first_frame)
next
  case (Suc n)
  let ?ui' = "(updateHitMarkers ^^ Suc n) ui"
  have s: "markerSpeed ?ui' = markerSpeed ui" by (rule frames_markerSpeed)
  have "hitMarkers ((updateHitMarkers ^^ Suc (Suc n)) ui) = hitMarkers (updateHitMarkers ?ui')"
    by simp
  also have "\<dots> = filter (\<lambda>marker. hit_x marker > - 30 \<and> opacity marker > 0)
                      (map (moveHitMarker ?ui') (hitMarkers ?ui'))"
    by (rule updateHitMarkers_fields)
  also have "\<dots> = map (fadedBy (markerSpeed ui) (Suc (Suc n)))
                      (filter (aliveAfter (markerSpeed ui) (Suc (Suc n))) (hitMarkers ui))"
    unfolding Suc.IH using next_frame [of ?ui' "Suc n" "hitMarkers ui"] assms
    unfolding s by simp
  finally show ?case .
qed

lemma handleTempoChange_speed:
  assumes "canvas ui = Some w"
  shows "\<exists>ui'. handleTempoChange v ui = Inr ui'
          \<and> currentTempo ui' = min 240 (max 40 v)
          \<and> markerSpeed ui' = (w - hitLineX ui) * of_int (min 240 (max 40 v)) / 3600"
  using assms by (simp add: handleTempoChange_def updateMarkerSpeed_def Let_def)

lemma resetVisualization_speed:
  assumes "canvas ui = Some w"
  shows "\<exists>ui'. resetVisualization True ui = Inr ui'
          \<and> markerSpeed ui' = (w - hitLineX ui) / (secondsPerBeat ui * 60)
          \<and> hitMarkers ui' = [] \<and> beatMarkers ui' = [] \<and> firstBeat ui'"
  using assms by (simp add: resetVisualization_def updateMarkerSpeed_def Let_def)

text \<open>
  C8, as the code has it. A frame moves every hit marker left by the current
  \<open>markerSpeed\<close> and lowers its opacity by 0.01, then removes the markers that are off
  screen (\<open>x \<le> -30\<close>) or faded (\<open>opacity \<le> 0\<close>); while \<open>markerSpeed\<close> stays the same
  (and is not negative) a marker is, after \<open>n\<close> frames, \<open>n\<close> speeds further left and
  \<open>n/100\<close> more transparent, or gone. The speed is not independent of the tempo:
  \<open>handleTempoChange\<close> recalibrates it to \<open>(width - hitLineX) * tempo / 3600\<close>, and
  switching the visualization on (\<open>resetVisualization(true)\<close>) recalibrates it to
  \<open>(width - hitLineX) / (secondsPerBeat * 60)\<close>.
\<close>

theorem hit_markers_move_and_fade:
  "markerSpeed (updateHitMarkers ui) = markerSpeed ui
   \<and> hitMarkers (updateHitMarkers ui)
       = map (fadedBy (markerSpeed ui) 1) (filter (aliveAfter (markerSpeed ui) 1) (hitMarkers ui))
   \<and> (0 \<le> markerSpeed ui \<longrightarrow>
        hitMarkers ((updateHitMarkers ^^ Suc n) ui)
          = map (fadedBy (markerSpeed ui) (Suc n))
                (filter (aliveAfter (markerSpeed ui) (Suc n)) (hitMarkers ui)))
   \<and> (canvas ui = Some w \<longrightarrow>
        (\<exists>ui'. handleTempoChange v ui = Inr ui'
           \<and> currentTempo ui' = min 240 (max 40 v)
           \<and> markerSpeed ui' = (w - hitLineX ui) * of_int (min 240 (max 40 v)) / 3600))
   \<and> (canvas ui = Some w \<longrightarrow>
        (\<exists>ui'. resetVisualization True ui = Inr ui'
           \<and> markerSpeed ui' = (w - hitLineX ui) / (secondsPerBeat ui * 60)
           \<and> hitMarkers ui' = []))"
proof -
  have "canvas ui = Some w \<longrightarrow>
        (\<exists>ui'. resetVisualization True ui = Inr ui'
           \<and> markerSpeed ui' = (w - hitLineX ui) / (secondsPerBeat ui * 60)
           \<and> hitMarkers ui' = [])"
    using resetVisualization_speed [of ui w] by blast
  then show ?thesis
    using frames_hitMarkers [of ui n] handleTempoChange_speed [of ui w v]
    by (simp add: updateHitMarkers_fields first_frame)
qed

theorem hit_markers_move_and_fade_witness:
  "0 \<le> markerSpeed (hitExample 60)
   \<and> hitMarkers ((updateHitMarkers ^^ 2) (hitExample 60))
       = [\<lparr>hit_x = 68, accuracy = 1, opacity = 49 / 50\<rparr>]
   \<and> canvas (MetronomeUI (Some 440)) = Some 440
   \<and> (\<exists>ui'. handleTempoChange 60 (MetronomeUI (Some 440)) = Inr ui'
          \<and> currentTempo ui' = 60 \<and> markerSpeed ui' = 6)
   \<and> (\<exists>ui'. resetVisualization True (MetronomeUI (Some 440)) = Inr ui'
          \<and> markerSpeed ui' = 12 \<and> hitMarkers ui' = [])"
  using hit_markers_move_and_fade [of "hitExample 60" 1 440 60]
        hit_markers_move_and_fade [of "MetronomeUI (Some 440)" 1 440 60]
  by (simp add: hitExample_fields fadedBy_def aliveAfter_def numeral_2_eq_2 MetronomeUI_def)

text \<open>
  C8 as stated fails: the same hit marker, in two visualizations that differ only in the
  tempo set (60 and 120), moves by 6 in one frame and by 12 in the other.
\<close>

theorem hit_marker_speed_follows_tempo:
  "currentTempo (hitExample 60) = 60 \<and> currentTempo (hitExample 120) = 120
   \<and> hitMarkers (hitExample 60) = hitMarkers (hitExample 120)
   \<and> map hit_x (hitMarkers (updateHitMarkers (hitExample 60))) = [74]
   \<and> map hit_x (hitMarkers (updateHitMarkers (hitExample 120))) = [68]"
  by (simp add: hitExample_fields updateHitMarkers_def moveHitMarker_def Let_def)

end
